theory Spec2Isabelle
  imports Main "HOL-Library.Product_Lexorder" "HOL-Library.Multiset"
begin

section \<open>The HNSW matcher facade of openMVG/matching/matcher\_hnsw.hpp\<close>

text \<open>
  The class \<open>HNSWMatcher\<close> wraps the graph index of third\_party/hnswlib. The facade is
  embedded function by function: \<open>Build\<close>, \<open>SearchNeighbour\<close> and \<open>SearchNeighbours\<close>
  take the object's state as an argument and return the new one. The OpenMP pragmas are
  read as the sequential loops they annotate. A member \<open>x_\<close> of the source is written
  \<open>x_m\<close>, since an identifier cannot end with an underscore here.
\<close>

subsection \<open>Machine integers\<close>

text \<open>
  \<open>size_t\<close> is 64 bits wide and \<open>IndexT\<close> is \<open>uint32_t\<close>; both are natural numbers with
  the wrap-around written out. \<open>int\<close> values are mathematical integers: the products
  \<open>dimension * vector_id\<close> and \<open>dimension_ * query_id\<close> are taken without overflow.
  An array is the list of its elements and an address inside it is the list from that
  offset on; an address before the start of the array is not represented (a negative
  offset stays at the start). The argument \<open>NN\<close>, a \<open>size_t\<close>, is meant below \<open>2 ^ 64\<close>.
  Exhaustion of memory is not represented.
\<close>

definition to_size_t :: "int \<Rightarrow> nat" where
  "to_size_t i = nat (i mod 2 ^ 64)"

definition to_IndexT :: "nat \<Rightarrow> nat" where
  "to_IndexT n = n mod 2 ^ 32"

definition size_t_to_int :: "nat \<Rightarrow> int" where
  "size_t_to_int n =
     (let r = int (n mod 2 ^ 32) in if r < 2 ^ 31 then r else r - 2 ^ 32)"

definition size_t_mul :: "nat \<Rightarrow> nat \<Rightarrow> nat" where
  "size_t_mul a b = (a * b) mod 2 ^ 64"

definition size_t_add :: "nat \<Rightarrow> nat \<Rightarrow> nat" where
  "size_t_add a b = (a + b) mod 2 ^ 64"

definition size_t_dec :: "nat \<Rightarrow> nat" where
  "size_t_dec a = (a + (2 ^ 64 - 1)) mod 2 ^ 64"

subsection \<open>Template arguments and metric spaces\<close>

datatype HNSWMETRIC = L2_HNSW | L1_HNSW | HAMMING_HNSW

text \<open>
  \<open>DistanceType\<close> is \<open>Metric::ResultType\<close>; \<open>Build\<close> only compares its \<open>typeid\<close> with
  those of \<open>int\<close>, \<open>float\<close> and \<open>unsigned int\<close>.
\<close>

datatype type_id = T_int | T_float | T_unsigned_int | T_other

text \<open>The four space objects \<open>Build\<close> can create, each with its \<open>size_t\<close> dimension.\<close>

datatype SpaceInterface =
    L1SpaceInteger nat
  | L2SpaceI nat
  | L2Space nat
  | HammingSpace nat

fun space_dim :: "SpaceInterface \<Rightarrow> nat" where
  "space_dim (L1SpaceInteger d) = d"
| "space_dim (L2SpaceI d) = d"
| "space_dim (L2Space d) = d"
| "space_dim (HammingSpace d) = d"

subsection \<open>The graph index\<close>

text \<open>
  Modelled from the spec: the class \<open>HierarchicalNSW\<close> (third\_party/hnswlib) is not part
  of the sources at hand. The index is kept as its construction parameters, its search
  breadth and the descriptors inserted so far, each with its label, in insertion order.
  \<open>addPoint\<close> copies the \<open>space_dim\<close> leading elements found at the address it is given.
  The breadth of a new index is taken as 10; the facade sets it before every search.
  The layered graph itself is not represented: the search over it is a parameter of the
  query operations (type \<open>searchKnn\<close> below).
\<close>

record 's HierarchicalNSW =
  space_m :: SpaceInterface
  max_elements_m :: nat
  M_m :: nat
  ef_construction_m :: nat
  ef_m :: nat
  points_m :: "('s list \<times> nat) list"

definition new_HierarchicalNSW ::
  "SpaceInterface \<Rightarrow> nat \<Rightarrow> nat \<Rightarrow> nat \<Rightarrow> 's HierarchicalNSW" where
  "new_HierarchicalNSW s max_elements M ef_construction =
     \<lparr>space_m = s, max_elements_m = max_elements, M_m = M,
      ef_construction_m = ef_construction, ef_m = 10, points_m = []\<rparr>"

definition addPoint :: "'s list \<Rightarrow> nat \<Rightarrow> 's HierarchicalNSW \<Rightarrow> 's HierarchicalNSW" where
  "addPoint datapoint label h =
     h\<lparr>points_m := points_m h @ [(take (space_dim (space_m h)) datapoint, label)]\<rparr>"

definition setEf :: "nat \<Rightarrow> 's HierarchicalNSW \<Rightarrow> 's HierarchicalNSW" where
  "setEf ef h = h\<lparr>ef_m := ef\<rparr>"

text \<open>
  \<open>searchKnn\<close> of the library: from the index, the address of a query and \<open>k\<close> to the
  content of a \<open>std::priority_queue\<close> of (distance, label) pairs. The queue is a list of
  its elements in no particular order.
\<close>

type_synonym ('s, 'd) searchKnn =
  "'s HierarchicalNSW \<Rightarrow> 's list \<Rightarrow> nat \<Rightarrow> ('d \<times> nat) list"

text \<open>
  \<open>std::priority_queue\<close> with the default comparison: \<open>top\<close> is the greatest element, for
  pairs the lexicographically greatest, and \<open>pop\<close> removes it.
\<close>

definition pq_top :: "('a::linorder) list \<Rightarrow> 'a" where
  "pq_top q = Max (set q)"

definition pq_pop :: "('a::linorder) list \<Rightarrow> 'a list" where
  "pq_pop q = remove1 (Max (set q)) q"

subsection \<open>The facade's state\<close>

record 's HNSWMatcher =
  dimension_m :: int
  HNSW_metric_m :: "SpaceInterface option"
  HNSW_matcher_m :: "'s HierarchicalNSW option"

text \<open>
  The defaulted constructor leaves both pointers null and \<open>dimension_\<close> uninitialised:
  the initial state is given for any value of \<open>dimension_\<close>.
\<close>

definition new_HNSWMatcher :: "int \<Rightarrow> 's HNSWMatcher" where
  "new_HNSWMatcher d = \<lparr>dimension_m = d, HNSW_metric_m = None, HNSW_matcher_m = None\<rparr>"

text \<open>
  \<open>IndMatch\<close> (openMVG/matching/indMatch.hpp) is a pair of \<open>IndexT\<close> values, both 0 in a
  default-constructed match.
\<close>

record IndMatch =
  i_m :: nat
  j_m :: nat

datatype error = OutOfBounds | TopOfEmptyQueue

subsection \<open>Build\<close>

text \<open>
  The \<open>switch\<close> on \<open>MetricType\<close>: \<open>Some\<close> of the space to be owned, or \<open>None\<close> on the
  branches that print a message and return \<open>false\<close>. \<open>MetricType\<close> and \<open>DistanceType\<close>
  are template arguments of the class, the same in every call on one object; here they
  are arguments of \<open>Build\<close>.
\<close>

definition select_space :: "HNSWMETRIC \<Rightarrow> type_id \<Rightarrow> int \<Rightarrow> SpaceInterface option" where
  "select_space MetricType DistanceType dimension =
     (case MetricType of
        L1_HNSW \<Rightarrow>
          if DistanceType = T_int then Some (L1SpaceInteger (to_size_t dimension))
          else None
      | L2_HNSW \<Rightarrow>
          if DistanceType = T_int then Some (L2SpaceI (to_size_t dimension))
          else if DistanceType = T_float then Some (L2Space (to_size_t dimension))
          else None
      | HAMMING_HNSW \<Rightarrow>
          if DistanceType = T_unsigned_int then Some (HammingSpace (to_size_t dimension))
          else None)"

text \<open>
  One call of \<open>addPoint\<close> made by \<open>Build\<close>; the label is also appended to the list of
  insertions made during this call of \<open>Build\<close>.
\<close>

definition insert_point ::
  "'s list \<Rightarrow> nat \<Rightarrow> 's HierarchicalNSW \<times> nat list \<Rightarrow> 's HierarchicalNSW \<times> nat list" where
  "insert_point datapoint label st = (addPoint datapoint label (fst st), snd st @ [label])"

text \<open>
  \<open>Build mt dt dataset nbRows dimension s\<close> returns the boolean result, the labels of the
  points inserted during the call, and the new state. \<open>dataset + off\<close> is the array from
  offset \<open>off\<close> on.
\<close>

definition Build ::
  "HNSWMETRIC \<Rightarrow> type_id \<Rightarrow> 's list \<Rightarrow> int \<Rightarrow> int \<Rightarrow> 's HNSWMatcher
     \<Rightarrow> bool \<times> nat list \<times> 's HNSWMatcher" where
  "Build MetricType DistanceType dataset nbRows dimension s =
     (if nbRows < 1 then
        (False, [], s\<lparr>HNSW_metric_m := None, HNSW_matcher_m := None\<rparr>)
      else
        let s1 = s\<lparr>dimension_m := dimension\<rparr> in
        case select_space MetricType DistanceType dimension of
          None \<Rightarrow> (False, [], s1)
        | Some sp \<Rightarrow>
            let s2 = s1\<lparr>HNSW_metric_m := Some sp\<rparr>;
                h0 = new_HierarchicalNSW sp (to_size_t nbRows) 16 100;
                st1 = insert_point dataset 0 (h0, []);
                st = fold (\<lambda>vector_id.
                             insert_point (drop (nat (dimension * int vector_id)) dataset)
                               (to_size_t (int vector_id)))
                       [1..<nat nbRows] st1
            in (True, snd st, s2\<lparr>HNSW_matcher_m := Some (fst st)\<rparr>))"

subsection \<open>SearchNeighbour\<close>

text \<open>
  The output parameters \<open>indice\<close> and \<open>distance\<close> are passed in and returned. \<open>top()\<close> of
  an empty queue has no defined result and is the error \<open>TopOfEmptyQueue\<close>.
\<close>

definition SearchNeighbour ::
  "('s, 'd::linorder) searchKnn \<Rightarrow> 's list \<Rightarrow> int \<Rightarrow> 'd \<Rightarrow> 's HNSWMatcher
     \<Rightarrow> error + (bool \<times> int \<times> 'd \<times> 's HNSWMatcher)" where
  "SearchNeighbour searchKnn query indice distance s =
     (case HNSW_matcher_m s of
        None \<Rightarrow> Inr (False, indice, distance, s)
      | Some h \<Rightarrow>
          let h' = setEf 16 h;
              q = searchKnn h' query 1
          in if q = [] then Inl TopOfEmptyQueue
             else let result = pq_top q
                  in Inr (True, size_t_to_int (snd result), fst result,
                          s\<lparr>HNSW_matcher_m := Some h'\<rparr>))"

subsection \<open>SearchNeighbours\<close>

text \<open>\<open>std::vector::resize\<close>: keeps the leading elements, pads with the default value.\<close>

definition resize :: "nat \<Rightarrow> 'a \<Rightarrow> 'a list \<Rightarrow> 'a list" where
  "resize n d xs = take n xs @ replicate (n - length xs) d"

text \<open>
  The \<open>while (!result.empty())\<close> loop of one query. A write through \<open>operator[]\<close> beyond
  the size of a vector is the error \<open>OutOfBounds\<close>.
\<close>

function drain ::
  "nat \<Rightarrow> nat \<Rightarrow> nat \<Rightarrow> ('d::linorder \<times> nat) list \<Rightarrow> IndMatch list \<times> 'd list
     \<Rightarrow> error + (IndMatch list \<times> 'd list)" where
  "drain query_id NN result_id result out =
     (if result = [] then Inr out
      else
        let res = pq_top result;
            match_id = size_t_add (size_t_mul query_id NN) result_id
        in if match_id < length (fst out) \<and> match_id < length (snd out) then
             drain query_id NN (size_t_dec result_id) (pq_pop result)
               ((fst out)[match_id := \<lparr>i_m = to_IndexT query_id, j_m = to_IndexT (snd res)\<rparr>],
                (snd out)[match_id := fst res])
           else Inl OutOfBounds)"
  by pat_completeness auto
termination
  by (relation "measure (\<lambda>(query_id, NN, result_id, result, out). length result)")
     (auto simp: pq_pop_def length_remove1 intro: diff_less)

declare drain.simps [simp del]

text \<open>
  The \<open>for\<close> loop over the queries. \<open>query_at dim query query_id\<close> is the address
  \<open>query + dimension_ * query_id\<close>: the array from that offset on.
\<close>

definition query_at :: "int \<Rightarrow> 's list \<Rightarrow> nat \<Rightarrow> 's list" where
  "query_at dim query query_id = drop (nat (dim * int query_id)) query"

fun search_loop ::
  "('s, 'd::linorder) searchKnn \<Rightarrow> 's HierarchicalNSW \<Rightarrow> int \<Rightarrow> 's list \<Rightarrow> nat \<Rightarrow> nat list
     \<Rightarrow> IndMatch list \<times> 'd list \<Rightarrow> error + (IndMatch list \<times> 'd list)" where
  "search_loop searchKnn h dim query NN [] out = Inr out"
| "search_loop searchKnn h dim query NN (query_id # rest) out =
     (let result = searchKnn h (query_at dim query query_id) NN
      in case drain query_id NN (size_t_dec NN) result out of
           Inl e \<Rightarrow> Inl e
         | Inr out' \<Rightarrow> search_loop searchKnn h dim query NN rest out')"

text \<open>The argument of \<open>setEf\<close> in \<open>SearchNeighbours\<close>.\<close>

definition efSearch :: "nat \<Rightarrow> int \<Rightarrow> nat" where
  "efSearch NN nbQuery =
     (if NN \<le> 2 then 16 else max (size_t_mul NN 2) (to_size_t nbQuery))"

definition SearchNeighbours ::
  "('s, 'd::{linorder,zero}) searchKnn \<Rightarrow> 's list \<Rightarrow> int \<Rightarrow> IndMatch list \<Rightarrow> 'd list \<Rightarrow> nat
     \<Rightarrow> 's HNSWMatcher \<Rightarrow> error + (bool \<times> IndMatch list \<times> 'd list \<times> 's HNSWMatcher)" where
  "SearchNeighbours searchKnn query nbQuery pvec_indices pvec_distances NN s =
     (case HNSW_matcher_m s of
        None \<Rightarrow> Inr (False, pvec_indices, pvec_distances, s)
      | Some h \<Rightarrow>
          let h' = setEf (efSearch NN nbQuery) h;
              n = size_t_mul (to_size_t nbQuery) NN;
              out = (resize n \<lparr>i_m = 0, j_m = 0\<rparr> pvec_indices, resize n 0 pvec_distances)
          in (case search_loop searchKnn h' (dimension_m s) query NN [0..<nat nbQuery] out of
                Inl e \<Rightarrow> Inl e
              | Inr out' \<Rightarrow> Inr (True, fst out', snd out', s\<lparr>HNSW_matcher_m := Some h'\<rparr>)))"

subsection \<open>Notions used in the statements\<close>

text \<open>
  The queue that \<open>SearchNeighbours\<close> receives for query \<open>i\<close>: the search runs on the
  index after \<open>setEf\<close>, at the address of the \<open>i\<close>-th query.
\<close>

definition query_result ::
  "('s, 'd) searchKnn \<Rightarrow> 's HNSWMatcher \<Rightarrow> 's list \<Rightarrow> int \<Rightarrow> nat \<Rightarrow> nat \<Rightarrow> ('d \<times> nat) list" where
  "query_result searchKnn s query nbQuery NN i =
     (case HNSW_matcher_m s of
        None \<Rightarrow> []
      | Some h \<Rightarrow> searchKnn (setEf (efSearch NN nbQuery) h) (query_at (dimension_m s) query i) NN)"

text \<open>Block \<open>i\<close> of an output vector: the \<open>NN\<close> positions from \<open>i * NN\<close> on.\<close>

definition block :: "nat \<Rightarrow> nat \<Rightarrow> 'a list \<Rightarrow> 'a list" where
  "block NN i xs = take NN (drop (i * NN) xs)"

text \<open>The match written for one element of a queue.\<close>

definition entry :: "nat \<Rightarrow> ('d \<times> nat) \<Rightarrow> IndMatch" where
  "entry query_id res = \<lparr>i_m = to_IndexT query_id, j_m = to_IndexT (snd res)\<rparr>"

text \<open>
  \<open>fill NN w n xs\<close>: the vector \<open>xs\<close> after the first \<open>n\<close> queries, when query \<open>i\<close>
  writes the elements \<open>w i\<close> at the end of block \<open>i\<close>.
\<close>

fun fill :: "nat \<Rightarrow> (nat \<Rightarrow> 'a list) \<Rightarrow> nat \<Rightarrow> 'a list \<Rightarrow> 'a list" where
  "fill NN w 0 xs = xs"
| "fill NN w (Suc n) xs =
     (let ys = fill NN w n xs
      in take (n * NN + Suc (size_t_dec NN) - length (w n)) ys @ w n
           @ drop (n * NN + Suc (size_t_dec NN)) ys)"

text \<open>
  A sequence of (match, distance) pairs in ascending order of distance, pairs of equal
  distance in ascending order of database id.
\<close>

definition ascending :: "(IndMatch \<times> 'd::linorder) list \<Rightarrow> bool" where
  "ascending rs =
     sorted_wrt (\<lambda>a b. snd a < snd b \<or> (snd a = snd b \<and> j_m (fst a) \<le> j_m (fst b))) rs"

text \<open>
  A sequence of calls of \<open>Build\<close> that all return \<open>false\<close>: \<open>Some\<close> of the final state,
  or \<open>None\<close> as soon as one call succeeds.
\<close>

type_synonym 's build_call = "HNSWMETRIC \<times> type_id \<times> 's list \<times> int \<times> int"

fun failed_builds :: "'s build_call list \<Rightarrow> 's HNSWMatcher \<Rightarrow> 's HNSWMatcher option" where
  "failed_builds [] s = Some s"
| "failed_builds (c # cs) s =
     (case c of (mt, dt, dataset, nbRows, dimension) \<Rightarrow>
        (case Build mt dt dataset nbRows dimension s of
           (ok, inserted, s') \<Rightarrow> if ok then None else failed_builds cs s'))"

text \<open>
  A sequence of calls of \<open>SearchNeighbours\<close>, each with its query array, number of
  queries, output vectors and \<open>NN\<close>: the state after the last one.
\<close>

type_synonym ('s, 'd) batch_call = "'s list \<times> int \<times> IndMatch list \<times> 'd list \<times> nat"

fun batches ::
  "('s, 'd::{linorder,zero}) searchKnn \<Rightarrow> ('s, 'd) batch_call list \<Rightarrow> 's HNSWMatcher
     \<Rightarrow> error + 's HNSWMatcher" where
  "batches searchKnn [] s = Inr s"
| "batches searchKnn (c # cs) s =
     (case c of (query, nbQuery, pvec_indices, pvec_distances, NN) \<Rightarrow>
        (case SearchNeighbours searchKnn query nbQuery pvec_indices pvec_distances NN s of
           Inl e \<Rightarrow> Inl e
         | Inr r \<Rightarrow> batches searchKnn cs (snd (snd (snd r)))))"

text \<open>
  A sequence of calls on one object, whose template arguments are the same in every
  call of \<open>Build\<close>: the state after the last call. The values returned by the calls are
  dropped.
\<close>

datatype ('s, 'd) call =
    CallBuild "'s list" int int
  | CallSearchNeighbour "'s list" int 'd
  | CallSearchNeighbours "'s list" int "IndMatch list" "'d list" nat

fun run_calls ::
  "('s, 'd::{linorder,zero}) searchKnn \<Rightarrow> HNSWMETRIC \<Rightarrow> type_id \<Rightarrow> ('s, 'd) call list
     \<Rightarrow> 's HNSWMatcher \<Rightarrow> error + 's HNSWMatcher" where
  "run_calls searchKnn mt dt [] s = Inr s"
| "run_calls searchKnn mt dt (CallBuild dataset nbRows dimension # cs) s =
     run_calls searchKnn mt dt cs (snd (snd (Build mt dt dataset nbRows dimension s)))"
| "run_calls searchKnn mt dt (CallSearchNeighbour query indice distance # cs) s =
     (case SearchNeighbour searchKnn query indice distance s of
        Inl e \<Rightarrow> Inl e
      | Inr r \<Rightarrow> run_calls searchKnn mt dt cs (snd (snd (snd r))))"
| "run_calls searchKnn mt dt (CallSearchNeighbours query nbQuery pvec_indices pvec_distances NN # cs) s =
     (case SearchNeighbours searchKnn query nbQuery pvec_indices pvec_distances NN s of
        Inl e \<Rightarrow> Inl e
      | Inr r \<Rightarrow> run_calls searchKnn mt dt cs (snd (snd (snd r))))"

subsection \<open>An exact search, for evaluation on concrete data\<close>

text \<open>
  Modelled from the spec: \<open>searchKnn\<close> of third\_party/hnswlib is not part of the sources
  at hand. \<open>exact_knn\<close> is the search the spec describes as the contract of the query
  engine, "return the k closest", computed over all stored descriptors with the L1
  distance on integer descriptors. The general theorems below hold for every search
  function; this one is used where a theorem is evaluated on concrete data.
\<close>

definition L1_int :: "int list \<Rightarrow> int list \<Rightarrow> int" where
  "L1_int a b = sum_list (map2 (\<lambda>x y. \<bar>x - y\<bar>) a b)"

definition exact_knn :: "(int, int) searchKnn" where
  "exact_knn h query k =
     take k (sort (map (\<lambda>p. (L1_int (fst p) (take (space_dim (space_m h)) query), snd p))
                     (points_m h)))"

text \<open>Two facades built on small data sets, for the same purpose.\<close>

definition one_point :: "int HNSWMatcher" where
  "one_point = snd (snd (Build L2_HNSW T_int [1, 2] 1 2 (new_HNSWMatcher 0)))"

definition three_points :: "int HNSWMatcher" where
  "three_points = snd (snd (Build L2_HNSW T_int [0, 3, 10] 3 1 (new_HNSWMatcher 0)))"

section \<open>Auxiliary facts\<close>

subsection \<open>The queue and the loop of one query\<close>

lemma drain_Nil [simp]: "drain query_id NN rid [] out = Inr out"
  by (subst drain.simps) simp

lemma sort_pq_pop:
  fixes q :: "('a::linorder) list"
  assumes "q \<noteq> []"
  shows "sort q = sort (pq_pop q) @ [pq_top q]"
proof (rule properties_for_sort)
  have in_q: "Max (set q) \<in> set q"
    using assms by simp
  then show "mset (sort (pq_pop q) @ [pq_top q]) = mset q"
    by (simp add: pq_pop_def pq_top_def)
  have "\<forall>x \<in> set (pq_pop q). x \<le> pq_top q"
    using set_remove1_subset [of "Max (set q)" q]
    by (auto simp: pq_pop_def pq_top_def)
  then show "sorted (sort (pq_pop q) @ [pq_top q])"
    by (simp add: sorted_append)
qed

lemma length_pq_pop:
  fixes q :: "('a::linorder) list"
  shows "q \<noteq> [] \<Longrightarrow> length (pq_pop q) = length q - 1"
  by (simp add: pq_pop_def length_remove1)

lemma size_t_dec_pos:
  assumes "0 < a" and "a < 2 ^ 64"
  shows "size_t_dec a = a - 1"
proof -
  have "a + (2 ^ 64 - 1) = (a - 1) + 2 ^ 64"
    using assms(1) by simp
  then have "size_t_dec a = (a - 1) mod 2 ^ 64"
    unfolding size_t_dec_def by (metis mod_add_self2)
  then show ?thesis
    using assms(2) by simp
qed

lemma write_block:
  assumes "p < length xs" and "k \<le> p"
  shows "take (p - k) (xs[p := v]) @ ys @ drop p (xs[p := v])
         = take (p - k) xs @ (ys @ [v]) @ drop (Suc p) xs"
proof -
  have "drop p (xs[p := v]) = v # drop (Suc p) xs"
    using assms(1) by (simp add: upd_conv_take_nth_drop)
  then show ?thesis
    by simp
qed

lemma drain_writes:
  fixes q :: "('d::linorder \<times> nat) list"
  assumes "length q \<le> Suc rid"
    and "q \<noteq> [] \<Longrightarrow> query_id * NN + rid < length inds"
    and "length dists = length inds"
    and "length inds \<le> 2 ^ 64"
  shows "drain query_id NN rid q (inds, dists) =
           Inr (take (query_id * NN + Suc rid - length q) inds
                  @ map (entry query_id) (sort q) @ drop (query_id * NN + Suc rid) inds,
                take (query_id * NN + Suc rid - length q) dists
                  @ map fst (sort q) @ drop (query_id * NN + Suc rid) dists)"
  using assms
proof (induction "length q" arbitrary: q rid inds dists)
  case 0
  then show ?case by simp
next
  case (Suc m)
  let ?p = "query_id * NN + rid"
  let ?q' = "pq_pop q"
  let ?inds1 = "inds[?p := entry query_id (pq_top q)]"
  let ?dists1 = "dists[?p := fst (pq_top q)]"
  from Suc.hyps(2) have ne: "q \<noteq> []" by auto
  with Suc.prems have p: "?p < length inds" "?p < length dists" "?p < 2 ^ 64"
    by auto
  have mid: "size_t_add (size_t_mul query_id NN) rid = ?p"
    using p(3) by (simp add: size_t_add_def size_t_mul_def mod_add_left_eq)
  have len': "length ?q' = m"
    using ne Suc.hyps(2) by (simp add: length_pq_pop)
  have step: "drain query_id NN rid q (inds, dists) =
              drain query_id NN (size_t_dec rid) ?q' (?inds1, ?dists1)"
    using ne p mid by (subst drain.simps) (simp add: entry_def Let_def)
  have srt: "sort q = sort ?q' @ [pq_top q]"
    using ne by (rule sort_pq_pop)
  show ?case
  proof (cases "m = 0")
    case True
    then have "?q' = []" using len' by simp
    moreover have "length q = 1" using True Suc.hyps(2) by simp
    ultimately show ?thesis
      using step srt p by (simp add: upd_conv_take_nth_drop)
  next
    case False
    then have rid: "rid \<ge> 1" "m \<le> rid"
      using Suc.hyps(2) Suc.prems(1) by auto
    then have dec: "size_t_dec rid = rid - 1"
      using p(3) by (intro size_t_dec_pos) auto
    have ih: "drain query_id NN (rid - 1) ?q' (?inds1, ?dists1) =
           Inr (take (query_id * NN + Suc (rid - 1) - length ?q') ?inds1
                  @ map (entry query_id) (sort ?q') @ drop (query_id * NN + Suc (rid - 1)) ?inds1,
                take (query_id * NN + Suc (rid - 1) - length ?q') ?dists1
                  @ map fst (sort ?q') @ drop (query_id * NN + Suc (rid - 1)) ?dists1)"
      using Suc.prems rid p len' by (intro Suc.hyps(1)) auto
    have e1: "query_id * NN + Suc (rid - 1) = ?p" using rid by simp
    have e2: "query_id * NN + Suc rid - length q = ?p - m"
      using Suc.hyps(2) by simp
    have km: "m \<le> ?p" using rid by simp
    show ?thesis
      unfolding step dec ih e1 e2 len' srt
      using write_block [OF p(1) km] write_block [OF p(2) km]
      by simp
  qed
qed

lemma Suc_size_t_dec: "0 < NN \<Longrightarrow> NN < 2 ^ 64 \<Longrightarrow> Suc (size_t_dec NN) = NN"
  by (simp add: size_t_dec_pos)

lemma block_bound: "i < n \<Longrightarrow> i * NN + NN \<le> n * NN" for i n NN :: nat
  using mult_le_mono1 [of "Suc i" n NN] by simp

lemma slice_prefix:
  assumes "a + N \<le> K" and "K \<le> length ys"
  shows "take N (drop a (take K ys @ zs)) = take N (drop a ys)"
proof -
  have "take N (drop a (take K ys)) = take N (drop a ys)"
    using assms(1) by (simp add: drop_take min_def)
  then show ?thesis
    using assms by simp
qed

lemma fill_props:
  assumes "\<forall>i<n. length (w i) \<le> NN" and "n * NN \<le> length xs"
    and "0 < NN" and "NN < 2 ^ 64"
  shows "length (fill NN w n xs) = length xs"
    and "drop (n * NN) (fill NN w n xs) = drop (n * NN) xs"
    and "\<forall>i<n. block NN i (fill NN w n xs) = take (NN - length (w i)) (block NN i xs) @ w i"
  using assms(1,2)
proof (induction n)
  case 0
  {
    case 1 show ?case by simp
  next
    case 2 show ?case by simp
  next
    case 3 show ?case by simp
  }
next
  case (Suc n)
  let ?ys = "fill NN w n xs"
  let ?K = "n * NN + NN - length (w n)"
  let ?L = "n * NN + NN"
  have S: "Suc (size_t_dec NN) = NN"
    using assms(3,4) by (rule Suc_size_t_dec)
  have unfold: "\<And>w xs. fill NN w (Suc n) xs =
      take (n * NN + NN - length (w n)) (fill NN w n xs) @ w n @ drop (n * NN + NN) (fill NN w n xs)"
    by (simp add: S Let_def)
  {
    case 1
    then have pre: "\<forall>i<n. length (w i) \<le> NN" "n * NN \<le> length xs" "length (w n) \<le> NN"
      "?L \<le> length xs"
      by auto
    have len: "length ?ys = length xs"
      using Suc.IH(1) pre by simp
    show ?case
      unfolding unfold using len pre by simp
  next
    case 2
    then have pre: "\<forall>i<n. length (w i) \<le> NN" "n * NN \<le> length xs" "length (w n) \<le> NN"
      "?L \<le> length xs"
      by auto
    have len: "length ?ys = length xs"
      using Suc.IH(1) pre by simp
    have tl: "drop (n * NN) ?ys = drop (n * NN) xs"
      using Suc.IH(2) pre by simp
    have "drop ?L ?ys = drop NN (drop (n * NN) ?ys)"
      by (simp add: add.commute)
    also have "\<dots> = drop ?L xs"
      unfolding tl by (simp add: add.commute)
    finally have dl: "drop ?L ?ys = drop ?L xs" .
    have "length (take ?K ?ys @ w n) = ?L"
      using len pre by simp
    then have "drop ?L ((take ?K ?ys @ w n) @ drop ?L ?ys) = drop ?L ?ys"
      by (metis append_eq_conv_conj)
    then have "drop ?L (fill NN w (Suc n) xs) = drop ?L xs"
      unfolding unfold using dl by (simp only: append_assoc)
    moreover have "Suc n * NN = ?L"
      by simp
    ultimately show ?case
      by (simp only:)
  next
    case 3
    then have pre: "\<forall>i<n. length (w i) \<le> NN" "n * NN \<le> length xs" "length (w n) \<le> NN"
      "?L \<le> length xs"
      by auto
    have len: "length ?ys = length xs"
      using Suc.IH(1) pre by simp
    have tl: "drop (n * NN) ?ys = drop (n * NN) xs"
      using Suc.IH(2) pre by simp
    have old: "\<forall>i<n. block NN i ?ys = take (NN - length (w i)) (block NN i xs) @ w i"
      using Suc.IH(3) pre by simp
    show ?case
    proof (intro allI impI)
      fix i assume "i < Suc n"
      show "block NN i (fill NN w (Suc n) xs) = take (NN - length (w i)) (block NN i xs) @ w i"
      proof (cases "i < n")
        case True
        then have b: "i * NN + NN \<le> ?K"
          using block_bound [OF True, of NN] pre(3) by simp
        have k: "?K \<le> length ?ys"
          using len pre by simp
        have "block NN i (take ?K ?ys @ w n @ drop ?L ?ys) = block NN i ?ys"
          unfolding block_def using b k by (rule slice_prefix)
        then show ?thesis
          unfolding unfold using old True by simp
      next
        case False
        then have i: "i = n" using \<open>i < Suc n\<close> by simp
        have k: "?K \<le> length ?ys"
          using len pre by simp
        have "drop (n * NN) (take ?K ?ys) = take (NN - length (w n)) (drop (n * NN) ?ys)"
          using pre(3) by (simp add: drop_take)
        moreover have "length (take (NN - length (w n)) (drop (n * NN) ?ys)) = NN - length (w n)"
          using len pre by simp
        ultimately have "block NN n (take ?K ?ys @ w n @ drop ?L ?ys)
                         = take (NN - length (w n)) (drop (n * NN) ?ys) @ w n"
          using k pre(3) by (simp add: block_def)
        then show ?thesis
          unfolding unfold i tl using pre(3) by (simp add: block_def)
      qed
    qed
  }
qed

lemma fill_nil: "\<forall>i<n. w i = [] \<Longrightarrow> fill NN w n xs = xs"
  by (induction n) (simp_all add: Let_def)

lemma fill_length:
  assumes "\<forall>i<n. length (w i) \<le> NN" and "n * NN \<le> length xs" and "NN < 2 ^ 64"
  shows "length (fill NN w n xs) = length xs"
proof (cases "NN = 0")
  case True
  then show ?thesis using assms(1) by (simp add: fill_nil)
next
  case False
  then show ?thesis using fill_props(1) [OF assms(1,2)] assms(3) by simp
qed

lemma fill_block:
  assumes "\<forall>i<n. length (w i) \<le> NN" and "n * NN \<le> length xs" and "NN < 2 ^ 64"
    and "i < n"
  shows "block NN i (fill NN w n xs) = take (NN - length (w i)) (block NN i xs) @ w i"
proof (cases "NN = 0")
  case True
  then show ?thesis using assms(1,4) by (simp add: fill_nil block_def)
next
  case False
  then show ?thesis using fill_props(3) [OF assms(1,2)] assms(3,4) by simp
qed

lemma search_loop_append:
  "search_loop searchKnn h dim query NN (xs @ ys) out =
     (case search_loop searchKnn h dim query NN xs out of
        Inl e \<Rightarrow> Inl e
      | Inr out' \<Rightarrow> search_loop searchKnn h dim query NN ys out')"
  by (induction xs arbitrary: out) (simp_all add: Let_def split: sum.splits)

lemma search_loop_fill:
  fixes searchKnn :: "('s, 'd::linorder) searchKnn"
  assumes "\<forall>i<n. length (searchKnn h (query_at dim query i) NN) \<le> NN"
    and "n * NN \<le> length inds"
    and "length dists = length inds"
    and "length inds \<le> 2 ^ 64"
    and "NN < 2 ^ 64"
  shows "search_loop searchKnn h dim query NN [0..<n] (inds, dists) =
           Inr (fill NN (\<lambda>i. map (entry i) (sort (searchKnn h (query_at dim query i) NN))) n inds,
                fill NN (\<lambda>i. map fst (sort (searchKnn h (query_at dim query i) NN))) n dists)"
  using assms(1,2)
proof (induction n)
  case 0
  then show ?case by simp
next
  case (Suc n)
  let ?q = "\<lambda>i. searchKnn h (query_at dim query i) NN"
  let ?wi = "\<lambda>i. map (entry i) (sort (?q i))"
  let ?wd = "\<lambda>i. map fst (sort (?q i))"
  let ?inds = "fill NN ?wi n inds"
  let ?dists = "fill NN ?wd n dists"
  from Suc.prems have pre: "\<forall>i<n. length (?q i) \<le> NN" "n * NN \<le> length inds"
    "length (?q n) \<le> NN" "n * NN + NN \<le> length inds"
    by auto
  have ih: "search_loop searchKnn h dim query NN [0..<n] (inds, dists) = Inr (?inds, ?dists)"
    using Suc.IH pre by simp
  have li: "length ?inds = length inds"
    using pre assms(5) by (intro fill_length) auto
  have ld: "length ?dists = length inds"
    using pre assms(3,5) by (simp add: fill_length)
  have d: "drain n NN (size_t_dec NN) (?q n) (?inds, ?dists) =
           Inr (take (n * NN + Suc (size_t_dec NN) - length (?q n)) ?inds
                  @ map (entry n) (sort (?q n)) @ drop (n * NN + Suc (size_t_dec NN)) ?inds,
                take (n * NN + Suc (size_t_dec NN) - length (?q n)) ?dists
                  @ map fst (sort (?q n)) @ drop (n * NN + Suc (size_t_dec NN)) ?dists)"
  proof (rule drain_writes)
    show "length (?q n) \<le> Suc (size_t_dec NN)"
    proof (cases "NN = 0")
      case True then show ?thesis using pre(3) by simp
    next
      case False then show ?thesis using pre(3) assms(5) by (simp add: Suc_size_t_dec)
    qed
    show "n * NN + size_t_dec NN < length ?inds" if "?q n \<noteq> []"
    proof -
      from that pre(3) have "0 < NN" by (cases "NN = 0") auto
      then have "size_t_dec NN = NN - 1" using assms(5) by (simp add: size_t_dec_pos)
      then show ?thesis using \<open>0 < NN\<close> pre(4) li by simp
    qed
    show "length ?dists = length ?inds" using li ld by simp
    show "length ?inds \<le> 2 ^ 64" using li assms(4) by simp
  qed
  have "search_loop searchKnn h dim query NN [0..<Suc n] (inds, dists) =
        drain n NN (size_t_dec NN) (?q n) (?inds, ?dists)"
    by (simp add: search_loop_append ih query_at_def split: sum.splits)
  then show ?case
    unfolding d by (simp add: Let_def)
qed

lemma length_resize: "length (resize n d xs) = n"
  by (simp add: resize_def)

lemma resize_count:
  assumes "0 \<le> nbQuery" and "nat nbQuery * NN < 2 ^ 64"
  shows "size_t_mul (to_size_t nbQuery) NN = nat nbQuery * NN"
proof (cases "NN = 0")
  case True
  then show ?thesis by (simp add: size_t_mul_def)
next
  case False
  then have "1 \<le> NN" by simp
  then have "nat nbQuery * 1 \<le> nat nbQuery * NN"
    by (rule mult_le_mono2)
  then have "nat nbQuery \<le> nat nbQuery * NN" by simp
  then have "nat nbQuery < 2 ^ 64"
    using assms(2) by (rule le_less_trans)
  then have "nbQuery < int (2 ^ 64)"
    using assms(1) by (simp only: nat_less_iff)
  then have "nbQuery < 2 ^ 64"
    by simp
  then have "to_size_t nbQuery = nat nbQuery"
    using assms(1) by (simp add: to_size_t_def)
  then show ?thesis
    using assms(2) by (simp add: size_t_mul_def)
qed

lemma SearchNeighbours_fill:
  fixes searchKnn :: "('s, 'd::{linorder,zero}) searchKnn"
  assumes "HNSW_matcher_m s = Some h"
    and "nat nbQuery * NN < 2 ^ 64"
    and "\<forall>i<nat nbQuery. length (query_result searchKnn s query nbQuery NN i) \<le> NN"
  shows "SearchNeighbours searchKnn query nbQuery pvec_indices pvec_distances NN s =
           Inr (True,
                fill NN (\<lambda>i. map (entry i) (sort (query_result searchKnn s query nbQuery NN i)))
                  (nat nbQuery)
                  (resize (size_t_mul (to_size_t nbQuery) NN) \<lparr>i_m = 0, j_m = 0\<rparr> pvec_indices),
                fill NN (\<lambda>i. map fst (sort (query_result searchKnn s query nbQuery NN i)))
                  (nat nbQuery)
                  (resize (size_t_mul (to_size_t nbQuery) NN) 0 pvec_distances),
                s\<lparr>HNSW_matcher_m := Some (setEf (efSearch NN nbQuery) h)\<rparr>)"
proof -
  let ?n = "size_t_mul (to_size_t nbQuery) NN"
  let ?h = "setEf (efSearch NN nbQuery) h"
  have qr: "\<And>i. query_result searchKnn s query nbQuery NN i
              = searchKnn ?h (query_at (dimension_m s) query i) NN"
    using assms(1) by (simp add: query_result_def)
  have nn: "nat nbQuery = 0 \<or> NN < 2 ^ 64"
  proof (cases "nat nbQuery = 0")
    case False
    then have "1 \<le> nat nbQuery" by simp
    then have "1 * NN \<le> nat nbQuery * NN" by (rule mult_le_mono1)
    then have "NN \<le> nat nbQuery * NN" by simp
    then have "NN < 2 ^ 64" using assms(2) by (rule le_less_trans)
    then show ?thesis by simp
  qed simp
  have n: "nat nbQuery * NN \<le> ?n"
  proof (cases "0 \<le> nbQuery")
    case True
    then show ?thesis using assms(2) by (simp add: resize_count)
  next
    case False
    then show ?thesis by simp
  qed
  have len: "?n \<le> 2 ^ 64"
    by (simp add: size_t_mul_def less_imp_le)
  let ?out = "(resize ?n \<lparr>i_m = 0, j_m = 0\<rparr> pvec_indices, resize ?n (0::'d) pvec_distances)"
  have loop: "search_loop searchKnn ?h (dimension_m s) query NN [0..<nat nbQuery] ?out =
      Inr (fill NN (\<lambda>i. map (entry i) (sort (searchKnn ?h (query_at (dimension_m s) query i) NN)))
             (nat nbQuery) (fst ?out),
           fill NN (\<lambda>i. map fst (sort (searchKnn ?h (query_at (dimension_m s) query i) NN)))
             (nat nbQuery) (snd ?out))"
  proof (cases "nat nbQuery = 0")
    case True
    then show ?thesis by simp
  next
    case False
    with nn have "NN < 2 ^ 64" by simp
    then show ?thesis
      unfolding fst_conv snd_conv
      using assms(3) n len by (intro search_loop_fill) (simp_all add: qr length_resize)
  qed
  show ?thesis
    unfolding SearchNeighbours_def using assms(1) by (simp add: Let_def loop qr)
qed

subsection \<open>Build\<close>

lemma fold_insert_point:
  "fold (\<lambda>v. insert_point (f v) (g v)) vs st =
     (fst st\<lparr>points_m := points_m (fst st)
                @ map (\<lambda>v. (take (space_dim (space_m (fst st))) (f v), g v)) vs\<rparr>,
      snd st @ map g vs)"
proof (induction vs arbitrary: st)
  case Nil
  then show ?case by simp
next
  case (Cons v vs)
  show ?case
    by (simp add: Cons.IH, simp add: insert_point_def addPoint_def)
qed

lemma Build_empty:
  "nbRows < 1 \<Longrightarrow>
     Build mt dt dataset nbRows dimension s =
       (False, [], s\<lparr>HNSW_metric_m := None, HNSW_matcher_m := None\<rparr>)"
  by (simp add: Build_def)

lemma Build_unsupported:
  "1 \<le> nbRows \<Longrightarrow> select_space mt dt dimension = None \<Longrightarrow>
     Build mt dt dataset nbRows dimension s = (False, [], s\<lparr>dimension_m := dimension\<rparr>)"
  by (simp add: Build_def)

lemma Build_success:
  assumes "1 \<le> nbRows" and "select_space mt dt dimension = Some sp"
  shows "Build mt dt dataset nbRows dimension s =
     (True, 0 # map (\<lambda>v. to_size_t (int v)) [1..<nat nbRows],
      s\<lparr>dimension_m := dimension, HNSW_metric_m := Some sp,
        HNSW_matcher_m := Some
          \<lparr>space_m = sp, max_elements_m = to_size_t nbRows, M_m = 16,
           ef_construction_m = 100, ef_m = 10,
           points_m = (take (space_dim sp) dataset, 0)
             # map (\<lambda>v. (take (space_dim sp) (drop (nat (dimension * int v)) dataset),
                          to_size_t (int v))) [1..<nat nbRows]\<rparr>\<rparr>)"
  using assms
  by (simp add: Build_def Let_def fold_insert_point insert_point_def addPoint_def
      new_HierarchicalNSW_def)

lemma select_space_dimension:
  "select_space mt dt d = None \<longleftrightarrow> select_space mt dt d' = None"
  by (simp add: select_space_def split: HNSWMETRIC.splits)

text \<open>With an unsupported combination no call of \<open>Build\<close> succeeds, whatever its arguments.\<close>

lemma Build_unsupported_always_fails:
  assumes "select_space mt dt d = None"
  shows "fst (Build mt dt dataset nbRows dimension s) = False"
proof (cases "nbRows < 1")
  case True
  then show ?thesis by (simp add: Build_empty)
next
  case False
  moreover have "select_space mt dt dimension = None"
    using assms select_space_dimension [of mt dt d dimension] by simp
  ultimately show ?thesis by (simp add: Build_unsupported)
qed

lemma Build_failed_cases:
  assumes "Build mt dt dataset nbRows dimension s = (False, inserted, s')"
  shows "inserted = [] \<and>
         (if nbRows < 1 then s' = s\<lparr>HNSW_metric_m := None, HNSW_matcher_m := None\<rparr>
          else select_space mt dt dimension = None \<and> s' = s\<lparr>dimension_m := dimension\<rparr>)"
proof (cases "nbRows < 1")
  case True
  then show ?thesis using assms by (simp add: Build_empty)
next
  case False
  then have n: "1 \<le> nbRows" by simp
  show ?thesis
  proof (cases "select_space mt dt dimension")
    case None
    then show ?thesis using assms n by (simp add: Build_unsupported)
  next
    case (Some sp)
    then show ?thesis using assms n by (simp add: Build_success)
  qed
qed

lemma failed_builds_unready:
  "HNSW_matcher_m s0 = None \<Longrightarrow> failed_builds cs s0 = Some s \<Longrightarrow> HNSW_matcher_m s = None"
proof (induction cs arbitrary: s0)
  case Nil
  then show ?case by simp
next
  case (Cons c cs)
  obtain mt dt dataset nbRows dimension where c: "c = (mt, dt, dataset, nbRows, dimension)"
    by (cases c) auto
  obtain ok inserted s1 where b: "Build mt dt dataset nbRows dimension s0 = (ok, inserted, s1)"
    by (cases "Build mt dt dataset nbRows dimension s0") auto
  from Cons.prems(2) c b have ok: "\<not> ok" and rest: "failed_builds cs s1 = Some s"
    by (auto split: if_splits)
  from b ok have "HNSW_matcher_m s1 = None"
    using Build_failed_cases [of mt dt dataset nbRows dimension s0 inserted s1] Cons.prems(1)
    by (auto split: if_splits)
  then show ?case
    using rest by (rule Cons.IH)
qed

subsection \<open>The example facades and the exact search\<close>

lemma upt_1_3: "[Suc 0..<3] = [Suc 0, 2]"
  by (simp add: numeral_3_eq_3 numeral_2_eq_2)

lemma one_point_eq:
  "one_point =
     \<lparr>dimension_m = 2, HNSW_metric_m = Some (L2SpaceI 2),
      HNSW_matcher_m = Some \<lparr>space_m = L2SpaceI 2, max_elements_m = 1, M_m = 16,
        ef_construction_m = 100, ef_m = 10, points_m = [([1, 2], 0)]\<rparr>\<rparr>"
  by (simp add: one_point_def Build_success [where sp = "L2SpaceI 2"] select_space_def
      to_size_t_def new_HNSWMatcher_def)

lemma three_points_eq:
  "three_points =
     \<lparr>dimension_m = 1, HNSW_metric_m = Some (L2SpaceI 1),
      HNSW_matcher_m = Some \<lparr>space_m = L2SpaceI 1, max_elements_m = 3, M_m = 16,
        ef_construction_m = 100, ef_m = 10,
        points_m = [([0], 0), ([3], 1), ([10], 2)]\<rparr>\<rparr>"
  by (simp add: three_points_def Build_success [where sp = "L2SpaceI 1"] select_space_def
      to_size_t_def new_HNSWMatcher_def upt_1_3)

lemma length_exact_knn: "length (exact_knn h query k) \<le> k"
  by (simp add: exact_knn_def)

lemma exact_knn_labels:
  assumes "r \<in> set (exact_knn h query k)"
  shows "snd r \<in> snd ` set (points_m h)"
proof -
  from assms have "r \<in> set (sort (map (\<lambda>p. (L1_int (fst p) (take (space_dim (space_m h)) query), snd p))
                     (points_m h)))"
    unfolding exact_knn_def by (rule in_set_takeD)
  then show ?thesis
    by force
qed

lemma replicate_2: "replicate 2 x = [x, x]"
  by (simp add: numeral_2_eq_2)

lemma one_point_search:
  "SearchNeighbours exact_knn [4, 6] 1 [] [] 2 one_point
     = Inr (True, [\<lparr>i_m = 0, j_m = 0\<rparr>, \<lparr>i_m = 0, j_m = 0\<rparr>], [0, 7],
        \<lparr>dimension_m = 2, HNSW_metric_m = Some (L2SpaceI 2),
         HNSW_matcher_m = Some \<lparr>space_m = L2SpaceI 2, max_elements_m = 1, M_m = 16,
           ef_construction_m = 100, ef_m = 16, points_m = [([1, 2], 0)]\<rparr>\<rparr>)"
  by (simp add: one_point_eq SearchNeighbours_def efSearch_def setEf_def resize_def to_size_t_def
      size_t_mul_def size_t_add_def size_t_dec_def query_at_def exact_knn_def L1_int_def
      drain.simps pq_top_def pq_pop_def to_IndexT_def replicate_2)

lemma one_point_matcher:
  "HNSW_matcher_m one_point =
     Some \<lparr>space_m = L2SpaceI 2, max_elements_m = 1, M_m = 16,
        ef_construction_m = 100, ef_m = 10, points_m = [([1, 2], 0)]\<rparr>"
  by (simp add: one_point_eq)

lemma one_point_results:
  "query_result exact_knn one_point [4, 6] 1 2 0 = [(7, 0)]"
  by (simp add: query_result_def one_point_eq setEf_def query_at_def exact_knn_def L1_int_def)

lemma one_point_search_stale:
  "SearchNeighbours exact_knn [4, 6] 1 [\<lparr>i_m = 9, j_m = 9\<rparr>, \<lparr>i_m = 8, j_m = 8\<rparr>] [50, 50] 2 one_point
     = Inr (True, [\<lparr>i_m = 9, j_m = 9\<rparr>, \<lparr>i_m = 0, j_m = 0\<rparr>], [50, 7],
        \<lparr>dimension_m = 2, HNSW_metric_m = Some (L2SpaceI 2),
         HNSW_matcher_m = Some \<lparr>space_m = L2SpaceI 2, max_elements_m = 1, M_m = 16,
           ef_construction_m = 100, ef_m = 16, points_m = [([1, 2], 0)]\<rparr>\<rparr>)"
  by (simp add: one_point_eq SearchNeighbours_def efSearch_def setEf_def resize_def to_size_t_def
      size_t_mul_def size_t_add_def size_t_dec_def query_at_def exact_knn_def L1_int_def
      drain.simps pq_top_def pq_pop_def to_IndexT_def)

lemma three_points_matcher:
  "HNSW_matcher_m three_points =
     Some \<lparr>space_m = L2SpaceI 1, max_elements_m = 3, M_m = 16,
        ef_construction_m = 100, ef_m = 10, points_m = [([0], 0), ([3], 1), ([10], 2)]\<rparr>"
  by (simp add: three_points_eq)

lemma three_points_results:
  "query_result exact_knn three_points [1, 9] 2 2 0 = [(1, 0), (2, 1)]"
  "query_result exact_knn three_points [1, 9] 2 2 (Suc 0) = [(1, 2), (6, 1)]"
  "query_result exact_knn three_points [1, 9] 2 1 0 = [(1, 0)]"
  "query_result exact_knn three_points [1, 9] 2 1 (Suc 0) = [(1, 2)]"
  "query_result exact_knn three_points [1, 9] 2 2 1 = [(1, 2), (6, 1)]"
  "query_result exact_knn three_points [1, 9] 2 1 1 = [(1, 2)]"
  "query_result exact_knn three_points [1, 9] 2 (Suc 0) 0 = [(1, 0)]"
  "query_result exact_knn three_points [1, 9] 2 (Suc 0) (Suc 0) = [(1, 2)]"
  by (simp_all add: query_result_def three_points_eq setEf_def query_at_def exact_knn_def
      L1_int_def)


lemma replicate_3: "replicate 3 x = [x, x, x]"
  by (simp add: numeral_3_eq_3)

lemma three_points_search:
  "SearchNeighbours exact_knn [1] 1 [] [] 3 three_points
     = Inr (True, [\<lparr>i_m = 0, j_m = 0\<rparr>, \<lparr>i_m = 0, j_m = 1\<rparr>, \<lparr>i_m = 0, j_m = 2\<rparr>], [1, 2, 9],
        \<lparr>dimension_m = 1, HNSW_metric_m = Some (L2SpaceI 1),
         HNSW_matcher_m = Some \<lparr>space_m = L2SpaceI 1, max_elements_m = 3, M_m = 16,
           ef_construction_m = 100, ef_m = 6,
           points_m = [([0], 0), ([3], 1), ([10], 2)]\<rparr>\<rparr>)"
  by (simp add: three_points_eq SearchNeighbours_def efSearch_def setEf_def resize_def to_size_t_def
      size_t_mul_def size_t_add_def size_t_dec_def query_at_def exact_knn_def L1_int_def
      drain.simps pq_top_def pq_pop_def to_IndexT_def replicate_3)


lemma three_points_nearest:
  "SearchNeighbour exact_knn [1, 9] 7 7 three_points
     = Inr (True, 0, 1,
        \<lparr>dimension_m = 1, HNSW_metric_m = Some (L2SpaceI 1),
         HNSW_matcher_m = Some \<lparr>space_m = L2SpaceI 1, max_elements_m = 3, M_m = 16,
           ef_construction_m = 100, ef_m = 16,
           points_m = [([0], 0), ([3], 1), ([10], 2)]\<rparr>\<rparr>)"
  by (simp add: three_points_eq SearchNeighbour_def setEf_def exact_knn_def L1_int_def
      pq_top_def size_t_to_int_def)

section \<open>The claims\<close>

subsection \<open>Build and the unready facade\<close>

text \<open>
  C5. A facade on which no call of \<open>Build\<close> has succeeded owns no index; on it both
  \<open>SearchNeighbour\<close> and \<open>SearchNeighbours\<close> return \<open>false\<close>, and the output parameters
  and the state are as they were.
\<close>

theorem unbuilt_search_not_ready:
  assumes "failed_builds cs (new_HNSWMatcher d) = Some s"
  shows "SearchNeighbour searchKnn query indice distance s = Inr (False, indice, distance, s)
       \<and> SearchNeighbours searchKnn query nbQuery pvec_indices pvec_distances NN s
           = Inr (False, pvec_indices, pvec_distances, s)"
proof -
  have "HNSW_matcher_m (new_HNSWMatcher d :: 'a HNSWMatcher) = None"
    by (simp add: new_HNSWMatcher_def)
  then have "HNSW_matcher_m s = None"
    using assms by (rule failed_builds_unready)
  then show ?thesis
    by (simp add: SearchNeighbour_def SearchNeighbours_def)
qed

theorem unbuilt_search_not_ready_witness:
  "failed_builds [(L2_HNSW, T_other, [1, 2 :: int], 1, 2), (L2_HNSW, T_int, [], 0, 4)]
       (new_HNSWMatcher 7)
     = Some \<lparr>dimension_m = 2, HNSW_metric_m = None, HNSW_matcher_m = None\<rparr>
   \<and> SearchNeighbour exact_knn [1, 2] 5 9
       \<lparr>dimension_m = 2, HNSW_metric_m = None, HNSW_matcher_m = None\<rparr>
     = Inr (False, 5, 9, \<lparr>dimension_m = 2, HNSW_metric_m = None, HNSW_matcher_m = None\<rparr>)
   \<and> SearchNeighbours exact_knn [1, 2] 1 [\<lparr>i_m = 3, j_m = 4\<rparr>] [8] 2
       \<lparr>dimension_m = 2, HNSW_metric_m = None, HNSW_matcher_m = None\<rparr>
     = Inr (False, [\<lparr>i_m = 3, j_m = 4\<rparr>], [8],
            \<lparr>dimension_m = 2, HNSW_metric_m = None, HNSW_matcher_m = None\<rparr>)"
proof -
  have h: "failed_builds [(L2_HNSW, T_other, [1, 2 :: int], 1, 2), (L2_HNSW, T_int, [], 0, 4)]
             (new_HNSWMatcher 7)
           = Some \<lparr>dimension_m = 2, HNSW_metric_m = None, HNSW_matcher_m = None\<rparr>"
    by (simp add: Build_def select_space_def new_HNSWMatcher_def)
  show ?thesis
    using h unbuilt_search_not_ready [OF h, of exact_knn "[1, 2]" 5 9 1 "[\<lparr>i_m = 3, j_m = 4\<rparr>]" "[8]" 2]
    by blast
qed

text \<open>
  C6. With fewer than one row \<open>Build\<close> returns \<open>false\<close> and leaves neither an index nor a
  metric space; with an unsupported combination of metric and distance type it returns
  \<open>false\<close> without having inserted any point.
\<close>

theorem Build_empty_or_unsupported:
  "(nbRows < 1 \<longrightarrow>
      fst (Build mt dt dataset nbRows dimension s) = False
      \<and> HNSW_matcher_m (snd (snd (Build mt dt dataset nbRows dimension s))) = None
      \<and> HNSW_metric_m (snd (snd (Build mt dt dataset nbRows dimension s))) = None)
   \<and> (select_space mt dt dimension = None \<longrightarrow>
      fst (Build mt dt dataset nbRows dimension s) = False
      \<and> fst (snd (Build mt dt dataset nbRows dimension s)) = [])"
proof (cases "nbRows < 1")
  case True
  then show ?thesis by (simp add: Build_empty)
next
  case False
  then have "1 \<le> nbRows" by simp
  then show ?thesis by (simp add: Build_unsupported)
qed

theorem Build_empty_or_unsupported_witness:
  "(0::int) < 1 \<and> select_space HAMMING_HNSW T_float 8 = None
   \<and> fst (Build L2_HNSW T_int [] 0 2
        \<lparr>dimension_m = 2, HNSW_metric_m = Some (L2SpaceI 2),
         HNSW_matcher_m = Some \<lparr>space_m = L2SpaceI 2, max_elements_m = 1, M_m = 16,
           ef_construction_m = 100, ef_m = 10, points_m = [([1, 2 :: int], 0)]\<rparr>\<rparr>) = False
   \<and> HNSW_matcher_m (snd (snd (Build L2_HNSW T_int [] 0 2
        \<lparr>dimension_m = 2, HNSW_metric_m = Some (L2SpaceI 2),
         HNSW_matcher_m = Some \<lparr>space_m = L2SpaceI 2, max_elements_m = 1, M_m = 16,
           ef_construction_m = 100, ef_m = 10, points_m = [([1, 2 :: int], 0)]\<rparr>\<rparr>))) = None
   \<and> fst (Build HAMMING_HNSW T_float [1, 2 :: int] 2 8 (new_HNSWMatcher 0)) = False
   \<and> fst (snd (Build HAMMING_HNSW T_float [1, 2 :: int] 2 8 (new_HNSWMatcher 0))) = []"
proof -
  have n: "(0::int) < 1"
    by simp
  have u: "select_space HAMMING_HNSW T_float 8 = None"
    by (simp add: select_space_def)
  show ?thesis
    using n u
      Build_empty_or_unsupported [of 0 L2_HNSW T_int "[]" 2
        "\<lparr>dimension_m = 2, HNSW_metric_m = Some (L2SpaceI 2),
          HNSW_matcher_m = Some \<lparr>space_m = L2SpaceI 2, max_elements_m = 1, M_m = 16,
            ef_construction_m = 100, ef_m = 10, points_m = [([1, 2 :: int], 0)]\<rparr>\<rparr>"]
      Build_empty_or_unsupported [of 2 HAMMING_HNSW T_float "[1, 2 :: int]" 8 "new_HNSWMatcher 0"]
    by simp
qed

text \<open>
  C2, as stated, fails: after a successful \<open>Build\<close>, a call with no rows returns \<open>false\<close>
  and the index built before is gone.
\<close>

theorem failed_Build_discards_index_counterexample:
  "fst (Build L2_HNSW T_int [1, 2 :: int] 1 2 (new_HNSWMatcher 0)) = True
   \<and> HNSW_matcher_m (snd (snd (Build L2_HNSW T_int [1, 2 :: int] 1 2 (new_HNSWMatcher 0))))
       = Some \<lparr>space_m = L2SpaceI 2, max_elements_m = 1, M_m = 16,
           ef_construction_m = 100, ef_m = 10, points_m = [([1, 2], 0)]\<rparr>
   \<and> fst (Build L2_HNSW T_int [] 0 2
        (snd (snd (Build L2_HNSW T_int [1, 2 :: int] 1 2 (new_HNSWMatcher 0))))) = False
   \<and> HNSW_matcher_m (snd (snd (Build L2_HNSW T_int [] 0 2
        (snd (snd (Build L2_HNSW T_int [1, 2 :: int] 1 2 (new_HNSWMatcher 0))))))) = None"
  by (simp add: Build_def select_space_def new_HNSWMatcher_def new_HierarchicalNSW_def
      insert_point_def addPoint_def to_size_t_def)

text \<open>
  C2, amended. A call of \<open>Build\<close> that returns \<open>false\<close> has inserted no point and has
  changed the state in one of two ways: with fewer than one row, \<open>HNSW_metric_\<close> and
  \<open>HNSW_matcher_\<close> are reset to null and \<open>dimension_\<close> is kept; otherwise the combination
  of metric and distance type is unsupported, \<open>HNSW_metric_\<close> and \<open>HNSW_matcher_\<close> are
  kept and \<open>dimension_\<close> is the dimension argument.
\<close>

theorem failed_Build_state:
  assumes "fst (Build mt dt dataset nbRows dimension s) = False"
  shows "fst (snd (Build mt dt dataset nbRows dimension s)) = []
       \<and> (if nbRows < 1 then
            snd (snd (Build mt dt dataset nbRows dimension s))
              = s\<lparr>HNSW_metric_m := None, HNSW_matcher_m := None\<rparr>
          else
            select_space mt dt dimension = None
            \<and> snd (snd (Build mt dt dataset nbRows dimension s)) = s\<lparr>dimension_m := dimension\<rparr>)"
proof -
  obtain ok inserted s' where b: "Build mt dt dataset nbRows dimension s = (ok, inserted, s')"
    by (cases "Build mt dt dataset nbRows dimension s") auto
  with assms have "Build mt dt dataset nbRows dimension s = (False, inserted, s')"
    by simp
  from Build_failed_cases [OF this] show ?thesis
    by (simp add: b)
qed

theorem failed_Build_state_witness:
  "fst (Build L2_HNSW T_other [4, 5, 6] 1 3
        \<lparr>dimension_m = 2, HNSW_metric_m = Some (L2SpaceI 2),
         HNSW_matcher_m = Some \<lparr>space_m = L2SpaceI 2, max_elements_m = 1, M_m = 16,
           ef_construction_m = 100, ef_m = 10, points_m = [([1, 2 :: int], 0)]\<rparr>\<rparr>) = False
   \<and> snd (snd (Build L2_HNSW T_other [4, 5, 6] 1 3
        \<lparr>dimension_m = 2, HNSW_metric_m = Some (L2SpaceI 2),
         HNSW_matcher_m = Some \<lparr>space_m = L2SpaceI 2, max_elements_m = 1, M_m = 16,
           ef_construction_m = 100, ef_m = 10, points_m = [([1, 2 :: int], 0)]\<rparr>\<rparr>))
     = \<lparr>dimension_m = 3, HNSW_metric_m = Some (L2SpaceI 2),
         HNSW_matcher_m = Some \<lparr>space_m = L2SpaceI 2, max_elements_m = 1, M_m = 16,
           ef_construction_m = 100, ef_m = 10, points_m = [([1, 2], 0)]\<rparr>\<rparr>"
proof -
  have f: "fst (Build L2_HNSW T_other [4, 5, 6] 1 3
        \<lparr>dimension_m = 2, HNSW_metric_m = Some (L2SpaceI 2),
         HNSW_matcher_m = Some \<lparr>space_m = L2SpaceI 2, max_elements_m = 1, M_m = 16,
           ef_construction_m = 100, ef_m = 10, points_m = [([1, 2 :: int], 0)]\<rparr>\<rparr>) = False"
    by (simp add: Build_def select_space_def)
  show ?thesis
    using f failed_Build_state [OF f]
    by simp
qed

text \<open>
  C3, as stated, fails: \<open>Build\<close> with dimension 0, two rows and a supported combination
  returns \<open>true\<close> and owns an index of two (empty) descriptors.
\<close>

theorem Build_dimension_zero_counterexample:
  "Build L2_HNSW T_int [1, 2, 3 :: int] 2 0 (new_HNSWMatcher 5)
     = (True, [0, 1],
        \<lparr>dimension_m = 0, HNSW_metric_m = Some (L2SpaceI 0),
         HNSW_matcher_m = Some \<lparr>space_m = L2SpaceI 0, max_elements_m = 2, M_m = 16,
           ef_construction_m = 100, ef_m = 10, points_m = [([], 0), ([], 1)]\<rparr>\<rparr>)"
  by (simp add: Build_def select_space_def new_HNSWMatcher_def new_HierarchicalNSW_def
      insert_point_def addPoint_def to_size_t_def numeral_2_eq_2)

text \<open>
  C3, amended. \<open>Build\<close> does not examine the dimension. With dimension 0 it returns
  \<open>true\<close> exactly when there is at least one row and the combination of metric and
  distance type is supported, and it then owns an index over a space of dimension 0
  that holds one descriptor for each row.
\<close>

theorem Build_dimension_zero:
  "fst (Build mt dt dataset nbRows 0 s) = (1 \<le> nbRows \<and> select_space mt dt 0 \<noteq> None)
   \<and> (fst (Build mt dt dataset nbRows 0 s) \<longrightarrow>
        (\<exists>h. HNSW_matcher_m (snd (snd (Build mt dt dataset nbRows 0 s))) = Some h
           \<and> space_dim (space_m h) = 0
           \<and> length (points_m h) = nat nbRows))"
proof (cases "nbRows < 1")
  case True
  then show ?thesis by (simp add: Build_empty)
next
  case False
  then have n: "1 \<le> nbRows" by simp
  show ?thesis
  proof (cases "select_space mt dt 0")
    case None
    then show ?thesis using n by (simp add: Build_unsupported)
  next
    case (Some sp)
    then have "space_dim sp = 0"
      by (auto simp: select_space_def to_size_t_def split: HNSWMETRIC.splits if_splits)
    then show ?thesis
      using n Some by (simp add: Build_success)
  qed
qed

theorem Build_dimension_zero_witness:
  "fst (Build L2_HNSW T_float [1, 2, 3 :: int] 3 0 (new_HNSWMatcher 5))
   \<and> (\<exists>h. HNSW_matcher_m (snd (snd (Build L2_HNSW T_float [1, 2, 3 :: int] 3 0
               (new_HNSWMatcher 5)))) = Some h
          \<and> space_dim (space_m h) = 0 \<and> length (points_m h) = 3)"
proof -
  have s: "select_space L2_HNSW T_float 0 \<noteq> None"
    by (simp add: select_space_def)
  show ?thesis
    using s Build_dimension_zero [of L2_HNSW T_float "[1, 2, 3 :: int]" 3 "new_HNSWMatcher 5"]
    by simp
qed

subsection \<open>The output of a batched search\<close>

lemma length_block:
  "i * NN + NN \<le> length xs \<Longrightarrow> length (block NN i xs) = NN"
  by (simp add: block_def)

lemma SearchNeighbours_blocks:
  fixes searchKnn :: "('s, 'd::{linorder,zero}) searchKnn"
  assumes "HNSW_matcher_m s = Some h"
    and "0 \<le> nbQuery"
    and "nat nbQuery * NN < 2 ^ 64"
    and "\<forall>i<nat nbQuery. length (query_result searchKnn s query nbQuery NN i) \<le> NN"
  shows "\<exists>inds dists.
           SearchNeighbours searchKnn query nbQuery pvec_indices pvec_distances NN s =
             Inr (True, inds, dists, s\<lparr>HNSW_matcher_m := Some (setEf (efSearch NN nbQuery) h)\<rparr>)
         \<and> length inds = nat nbQuery * NN
         \<and> length dists = nat nbQuery * NN
         \<and> (\<forall>i<nat nbQuery.
               block NN i inds =
                 take (NN - length (query_result searchKnn s query nbQuery NN i))
                   (block NN i (resize (nat nbQuery * NN) \<lparr>i_m = 0, j_m = 0\<rparr> pvec_indices))
                 @ map (entry i) (sort (query_result searchKnn s query nbQuery NN i))
             \<and> block NN i dists =
                 take (NN - length (query_result searchKnn s query nbQuery NN i))
                   (block NN i (resize (nat nbQuery * NN) 0 pvec_distances))
                 @ map fst (sort (query_result searchKnn s query nbQuery NN i)))"
proof -
  let ?q = "query_result searchKnn s query nbQuery NN"
  let ?n = "nat nbQuery * NN"
  let ?ri = "resize ?n \<lparr>i_m = 0, j_m = 0\<rparr> pvec_indices"
  let ?rd = "resize ?n (0::'d) pvec_distances"
  let ?wi = "\<lambda>i. map (entry i) (sort (?q i))"
  let ?wd = "\<lambda>i. map fst (sort (?q i))"
  have cnt: "size_t_mul (to_size_t nbQuery) NN = ?n"
    using assms(2,3) by (rule resize_count)
  have run: "SearchNeighbours searchKnn query nbQuery pvec_indices pvec_distances NN s =
      Inr (True, fill NN ?wi (nat nbQuery) ?ri, fill NN ?wd (nat nbQuery) ?rd,
           s\<lparr>HNSW_matcher_m := Some (setEf (efSearch NN nbQuery) h)\<rparr>)"
    using SearchNeighbours_fill [OF assms(1,3,4), of pvec_indices pvec_distances]
    by (simp only: cnt)
  have wi: "\<forall>i<nat nbQuery. length (?wi i) \<le> NN"
    using assms(4) by simp
  have wd: "\<forall>i<nat nbQuery. length (?wd i) \<le> NN"
    using assms(4) by simp
  have li: "nat nbQuery * NN \<le> length ?ri" and ld: "nat nbQuery * NN \<le> length ?rd"
    by (simp_all add: length_resize)
  have blocks: "block NN i (fill NN ?wi (nat nbQuery) ?ri)
                  = take (NN - length (?q i)) (block NN i ?ri) @ ?wi i
              \<and> block NN i (fill NN ?wd (nat nbQuery) ?rd)
                  = take (NN - length (?q i)) (block NN i ?rd) @ ?wd i"
    if i: "i < nat nbQuery" for i
  proof -
    from i have "1 \<le> nat nbQuery" by simp
    then have "1 * NN \<le> nat nbQuery * NN" by (rule mult_le_mono1)
    then have "NN \<le> nat nbQuery * NN" by simp
    then have nn: "NN < 2 ^ 64" using assms(3) by (rule le_less_trans)
    show ?thesis
      using fill_block [OF wi li nn i] fill_block [OF wd ld nn i] by simp
  qed
  have lens: "length (fill NN ?wi (nat nbQuery) ?ri) = ?n \<and> length (fill NN ?wd (nat nbQuery) ?rd) = ?n"
  proof (cases "nat nbQuery = 0")
    case True
    then show ?thesis by (simp add: length_resize)
  next
    case False
    then have "1 \<le> nat nbQuery" by simp
    then have "1 * NN \<le> nat nbQuery * NN" by (rule mult_le_mono1)
    then have "NN \<le> nat nbQuery * NN" by simp
    then have nn: "NN < 2 ^ 64" using assms(3) by (rule le_less_trans)
    show ?thesis
      using fill_length [OF wi li nn] fill_length [OF wd ld nn] by (simp add: length_resize)
  qed
  show ?thesis
    using run lens blocks by blast
qed

text \<open>
  C1, as stated, fails: on an index of one descriptor, a batched search of one query with
  \<open>NN = 2\<close> returns vectors of two entries, the first of which is the default value.
\<close>

theorem SearchNeighbours_block_length_counterexample:
  "HNSW_matcher_m one_point =
     Some \<lparr>space_m = L2SpaceI 2, max_elements_m = 1, M_m = 16,
        ef_construction_m = 100, ef_m = 10, points_m = [([1, 2], 0)]\<rparr>
   \<and> SearchNeighbours exact_knn [4, 6] 1 [] [] 2 one_point
     = Inr (True, [\<lparr>i_m = 0, j_m = 0\<rparr>, \<lparr>i_m = 0, j_m = 0\<rparr>], [0, 7],
        \<lparr>dimension_m = 2, HNSW_metric_m = Some (L2SpaceI 2),
         HNSW_matcher_m = Some \<lparr>space_m = L2SpaceI 2, max_elements_m = 1, M_m = 16,
           ef_construction_m = 100, ef_m = 16, points_m = [([1, 2], 0)]\<rparr>\<rparr>)
   \<and> length (block 2 0 [0, 7 :: int]) = 2
   \<and> min 2 (length [([1, 2 :: int], 0 :: nat)]) = 1"
  by (simp add: one_point_search block_def, simp add: one_point_eq)

text \<open>
  C1, amended. Block \<open>i\<close> of each output vector has length \<open>NN\<close>, whatever the size of
  the data set: the vectors hold \<open>nbQuery * NN\<close> entries. The entries of query \<open>i\<close>, ids and
  distances, as many as the search returned, are the last ones of block \<open>i\<close>; the
  positions of the block before them hold what the resized vectors held there.
\<close>

theorem SearchNeighbours_block_length:
  fixes searchKnn :: "('s, 'd::{linorder,zero}) searchKnn"
  assumes "HNSW_matcher_m s = Some h"
    and "0 \<le> nbQuery"
    and "nat nbQuery * NN < 2 ^ 64"
    and "\<forall>i<nat nbQuery. length (query_result searchKnn s query nbQuery NN i) \<le> NN"
  shows "\<exists>inds dists s'.
           SearchNeighbours searchKnn query nbQuery pvec_indices pvec_distances NN s =
             Inr (True, inds, dists, s')
         \<and> length inds = nat nbQuery * NN
         \<and> length dists = nat nbQuery * NN
         \<and> (\<forall>i<nat nbQuery.
               length (block NN i inds) = NN \<and> length (block NN i dists) = NN
             \<and> drop (NN - length (query_result searchKnn s query nbQuery NN i)) (block NN i inds)
                 = map (entry i) (sort (query_result searchKnn s query nbQuery NN i))
             \<and> drop (NN - length (query_result searchKnn s query nbQuery NN i)) (block NN i dists)
                 = map fst (sort (query_result searchKnn s query nbQuery NN i))
             \<and> take (NN - length (query_result searchKnn s query nbQuery NN i)) (block NN i inds)
                 = take (NN - length (query_result searchKnn s query nbQuery NN i))
                     (block NN i (resize (nat nbQuery * NN) \<lparr>i_m = 0, j_m = 0\<rparr> pvec_indices))
             \<and> take (NN - length (query_result searchKnn s query nbQuery NN i)) (block NN i dists)
                 = take (NN - length (query_result searchKnn s query nbQuery NN i))
                     (block NN i (resize (nat nbQuery * NN) 0 pvec_distances)))"
proof -
  let ?q = "query_result searchKnn s query nbQuery NN"
  let ?ri = "resize (nat nbQuery * NN) \<lparr>i_m = 0, j_m = 0\<rparr> pvec_indices"
  let ?rd = "resize (nat nbQuery * NN) (0::'d) pvec_distances"
  obtain inds dists where r:
    "SearchNeighbours searchKnn query nbQuery pvec_indices pvec_distances NN s =
       Inr (True, inds, dists, s\<lparr>HNSW_matcher_m := Some (setEf (efSearch NN nbQuery) h)\<rparr>)"
    "length inds = nat nbQuery * NN" "length dists = nat nbQuery * NN"
    "\<forall>i<nat nbQuery.
       block NN i inds = take (NN - length (?q i)) (block NN i ?ri) @ map (entry i) (sort (?q i))
     \<and> block NN i dists = take (NN - length (?q i)) (block NN i ?rd) @ map fst (sort (?q i))"
    using SearchNeighbours_blocks [OF assms, of pvec_indices pvec_distances] by blast
  have "length (block NN i inds) = NN \<and> length (block NN i dists) = NN
      \<and> drop (NN - length (?q i)) (block NN i inds) = map (entry i) (sort (?q i))
      \<and> drop (NN - length (?q i)) (block NN i dists) = map fst (sort (?q i))
      \<and> take (NN - length (?q i)) (block NN i inds) = take (NN - length (?q i)) (block NN i ?ri)
      \<and> take (NN - length (?q i)) (block NN i dists) = take (NN - length (?q i)) (block NN i ?rd)"
    if i: "i < nat nbQuery" for i
  proof -
    have b: "i * NN + NN \<le> nat nbQuery * NN"
      using i by (rule block_bound)
    have li: "length (block NN i ?ri) = NN" and ld: "length (block NN i ?rd) = NN"
      using b by (simp_all add: length_block length_resize)
    have m: "length (?q i) \<le> NN"
      using assms(4) i by simp
    have bi: "block NN i inds = take (NN - length (?q i)) (block NN i ?ri) @ map (entry i) (sort (?q i))"
      and bd: "block NN i dists = take (NN - length (?q i)) (block NN i ?rd) @ map fst (sort (?q i))"
      using r(4) i by simp_all
    have pi: "length (take (NN - length (?q i)) (block NN i ?ri)) = NN - length (?q i)"
      and pd: "length (take (NN - length (?q i)) (block NN i ?rd)) = NN - length (?q i)"
      using li ld by simp_all
    have "drop (NN - length (?q i)) (block NN i inds) = map (entry i) (sort (?q i))"
      and "take (NN - length (?q i)) (block NN i inds) = take (NN - length (?q i)) (block NN i ?ri)"
      unfolding bi using pi by simp_all
    moreover have "drop (NN - length (?q i)) (block NN i dists) = map fst (sort (?q i))"
      and "take (NN - length (?q i)) (block NN i dists) = take (NN - length (?q i)) (block NN i ?rd)"
      unfolding bd using pd by simp_all
    moreover have "length (block NN i inds) = NN" and "length (block NN i dists) = NN"
      using b r(2,3) by (simp_all add: length_block)
    ultimately show ?thesis
      by simp
  qed
  then show ?thesis
    using r(1,2,3) by blast
qed

theorem SearchNeighbours_block_length_witness:
  "length (query_result exact_knn one_point [4, 6] 1 2 0) \<le> 2
   \<and> (\<exists>inds dists s'.
         SearchNeighbours exact_knn [4, 6] 1 [\<lparr>i_m = 9, j_m = 9\<rparr>, \<lparr>i_m = 8, j_m = 8\<rparr>] [50, 50] 2
           one_point = Inr (True, inds, dists, s')
       \<and> length inds = 2 \<and> length dists = 2
       \<and> length (block 2 0 inds) = 2 \<and> length (block 2 0 dists) = 2
       \<and> drop 1 (block 2 0 inds) = [\<lparr>i_m = 0, j_m = 0\<rparr>]
       \<and> drop 1 (block 2 0 dists) = [7]
       \<and> take 1 (block 2 0 inds) = [\<lparr>i_m = 9, j_m = 9\<rparr>]
       \<and> take 1 (block 2 0 dists) = [50])
   \<and> length (query_result exact_knn three_points [1, 9] 2 2 0) \<le> 2
   \<and> length (query_result exact_knn three_points [1, 9] 2 2 1) \<le> 2
   \<and> (\<exists>inds dists s'.
         SearchNeighbours exact_knn [1, 9] 2 [] [] 2 three_points = Inr (True, inds, dists, s')
       \<and> length inds = 4 \<and> length dists = 4
       \<and> length (block 2 0 inds) = 2 \<and> length (block 2 1 inds) = 2
       \<and> length (block 2 0 dists) = 2 \<and> length (block 2 1 dists) = 2
       \<and> block 2 1 inds = [\<lparr>i_m = 1, j_m = 2\<rparr>, \<lparr>i_m = 1, j_m = 1\<rparr>]
       \<and> block 2 1 dists = [1, 6])"
proof -
  have g2: "(0::int) \<le> 1"
    by simp
  have g3: "nat 1 * 2 < (2::nat) ^ 64"
    by simp
  have g4: "\<forall>i<nat 1. length (query_result exact_knn one_point [4, 6] 1 2 i) \<le> 2"
    by (simp add: query_result_def one_point_matcher length_exact_knn)
  let ?q = "query_result exact_knn one_point [4, 6] 1 2"
  from SearchNeighbours_block_length [OF one_point_matcher g2 g3 g4,
      of "[\<lparr>i_m = 9, j_m = 9\<rparr>, \<lparr>i_m = 8, j_m = 8\<rparr>]" "[50, 50]"]
  obtain inds dists s' where
    r: "SearchNeighbours exact_knn [4, 6] 1 [\<lparr>i_m = 9, j_m = 9\<rparr>, \<lparr>i_m = 8, j_m = 8\<rparr>] [50, 50] 2
          one_point = Inr (True, inds, dists, s')"
    and l: "length inds = nat 1 * 2" "length dists = nat 1 * 2"
    and b: "\<forall>i<nat 1.
        length (block 2 i inds) = 2 \<and> length (block 2 i dists) = 2
      \<and> drop (2 - length (?q i)) (block 2 i inds) = map (entry i) (sort (?q i))
      \<and> drop (2 - length (?q i)) (block 2 i dists) = map fst (sort (?q i))
      \<and> take (2 - length (?q i)) (block 2 i inds)
          = take (2 - length (?q i))
              (block 2 i (resize (nat 1 * 2) \<lparr>i_m = 0, j_m = 0\<rparr> [\<lparr>i_m = 9, j_m = 9\<rparr>, \<lparr>i_m = 8, j_m = 8\<rparr>]))
      \<and> take (2 - length (?q i)) (block 2 i dists)
          = take (2 - length (?q i)) (block 2 i (resize (nat 1 * 2) 0 [50, 50]))"
    by blast
  from b have b0:
      "length (block 2 0 inds) = 2 \<and> length (block 2 0 dists) = 2
      \<and> drop (2 - length (?q 0)) (block 2 0 inds) = map (entry 0) (sort (?q 0))
      \<and> drop (2 - length (?q 0)) (block 2 0 dists) = map fst (sort (?q 0))
      \<and> take (2 - length (?q 0)) (block 2 0 inds)
          = take (2 - length (?q 0))
              (block 2 0 (resize (nat 1 * 2) \<lparr>i_m = 0, j_m = 0\<rparr> [\<lparr>i_m = 9, j_m = 9\<rparr>, \<lparr>i_m = 8, j_m = 8\<rparr>]))
      \<and> take (2 - length (?q 0)) (block 2 0 dists)
          = take (2 - length (?q 0)) (block 2 0 (resize (nat 1 * 2) 0 [50, 50]))"
    by simp
  then have c0: "length (block 2 0 inds) = 2 \<and> length (block 2 0 dists) = 2
       \<and> drop 1 (block 2 0 inds) = [\<lparr>i_m = 0, j_m = 0\<rparr>]
       \<and> drop 1 (block 2 0 dists) = [7]
       \<and> take 1 (block 2 0 inds) = [\<lparr>i_m = 9, j_m = 9\<rparr>]
       \<and> take 1 (block 2 0 dists) = [50]"
    unfolding one_point_results
    by (simp add: entry_def to_IndexT_def block_def resize_def)
  have first: "\<exists>inds dists s'.
         SearchNeighbours exact_knn [4, 6] 1 [\<lparr>i_m = 9, j_m = 9\<rparr>, \<lparr>i_m = 8, j_m = 8\<rparr>] [50, 50] 2
           one_point = Inr (True, inds, dists, s')
       \<and> length inds = 2 \<and> length dists = 2
       \<and> length (block 2 0 inds) = 2 \<and> length (block 2 0 dists) = 2
       \<and> drop 1 (block 2 0 inds) = [\<lparr>i_m = 0, j_m = 0\<rparr>]
       \<and> drop 1 (block 2 0 dists) = [7]
       \<and> take 1 (block 2 0 inds) = [\<lparr>i_m = 9, j_m = 9\<rparr>]
       \<and> take 1 (block 2 0 dists) = [50]"
    using r l c0 by auto
  have h2: "(0::int) \<le> 2"
    by simp
  have h3: "nat 2 * 2 < (2::nat) ^ 64"
    by simp
  have h4: "\<forall>i<nat 2. length (query_result exact_knn three_points [1, 9] 2 2 i) \<le> 2"
    by (simp add: query_result_def three_points_matcher length_exact_knn)
  let ?p = "query_result exact_knn three_points [1, 9] 2 2"
  from SearchNeighbours_block_length [OF three_points_matcher h2 h3 h4, of "[]" "[]"]
  obtain inds dists s' where
    r': "SearchNeighbours exact_knn [1, 9] 2 [] [] 2 three_points = Inr (True, inds, dists, s')"
    and l': "length inds = nat 2 * 2" "length dists = nat 2 * 2"
    and b': "\<forall>i<nat 2. length (block 2 i inds) = 2 \<and> length (block 2 i dists) = 2
              \<and> drop (2 - length (?p i)) (block 2 i inds) = map (entry i) (sort (?p i))
              \<and> drop (2 - length (?p i)) (block 2 i dists) = map fst (sort (?p i))"
    by blast
  from b' have d0: "length (block 2 0 inds) = 2 \<and> length (block 2 0 dists) = 2"
    by simp
  from b' have d1: "length (block 2 1 inds) = 2 \<and> length (block 2 1 dists) = 2
      \<and> drop (2 - length (?p 1)) (block 2 1 inds) = map (entry 1) (sort (?p 1))
      \<and> drop (2 - length (?p 1)) (block 2 1 dists) = map fst (sort (?p 1))"
    by simp
  then have e1: "block 2 1 inds = [\<lparr>i_m = 1, j_m = 2\<rparr>, \<lparr>i_m = 1, j_m = 1\<rparr>]"
    "block 2 1 dists = [1, 6]"
    by (simp_all add: three_points_results entry_def to_IndexT_def)
  have second: "\<exists>inds dists s'.
         SearchNeighbours exact_knn [1, 9] 2 [] [] 2 three_points = Inr (True, inds, dists, s')
       \<and> length inds = 4 \<and> length dists = 4
       \<and> length (block 2 0 inds) = 2 \<and> length (block 2 1 inds) = 2
       \<and> length (block 2 0 dists) = 2 \<and> length (block 2 1 dists) = 2
       \<and> block 2 1 inds = [\<lparr>i_m = 1, j_m = 2\<rparr>, \<lparr>i_m = 1, j_m = 1\<rparr>]
       \<and> block 2 1 dists = [1, 6]"
    using r' l' d0 d1 e1 by auto
  show ?thesis
    using first second by (simp add: three_points_results one_point_results)
qed

lemma ascending_entries:
  fixes q :: "('d::linorder \<times> nat) list"
  assumes "\<forall>r\<in>set q. snd r < 2 ^ 32"
  shows "ascending (map (\<lambda>r. (entry i r, fst r)) (sort q))"
proof -
  have "sorted_wrt (\<le>) (sort q)"
    by simp
  then have "sorted_wrt (\<lambda>a b. fst a < fst b \<or> (fst a = fst b \<and> to_IndexT (snd a) \<le> to_IndexT (snd b)))
               (sort q)"
  proof (rule sorted_wrt_mono_rel [rotated])
    fix a b :: "'d \<times> nat"
    assume "a \<in> set (sort q)" and "b \<in> set (sort q)" and le: "a \<le> b"
    then have "snd a < 2 ^ 32" and "snd b < 2 ^ 32"
      using assms by auto
    then have "to_IndexT (snd a) = snd a" and "to_IndexT (snd b) = snd b"
      by (simp_all add: to_IndexT_def)
    moreover from le have "fst a < fst b \<or> (fst a = fst b \<and> snd a \<le> snd b)"
      by (cases a; cases b) auto
    ultimately show "fst a < fst b \<or> (fst a = fst b \<and> to_IndexT (snd a) \<le> to_IndexT (snd b))"
      by simp
  qed
  then show ?thesis
    by (simp add: ascending_def sorted_wrt_map entry_def)
qed

lemma drop_zip_blocks:
  assumes "length p1 = n" and "length p2 = n"
  shows "drop n (zip (p1 @ map f xs) (p2 @ map g xs)) = map (\<lambda>x. (f x, g x)) xs"
proof -
  have "zip (p1 @ map f xs) (p2 @ map g xs) = zip p1 p2 @ zip (map f xs) (map g xs)"
    using assms by (simp add: zip_append)
  moreover have "length (zip p1 p2) = n"
    using assms by simp
  moreover have "zip (map f xs) (map g xs) = map (\<lambda>x. (f x, g x)) xs"
    by (induction xs) simp_all
  ultimately show ?thesis
    by simp
qed

text \<open>
  C4, as stated, fails: on an index of one descriptor, a batched search of one query with
  \<open>NN = 2\<close> into vectors that held two entries of distance 50 returns a block whose
  first entry, which was not written, has distance 50 and whose second has distance 7.
\<close>

theorem SearchNeighbours_ascending_counterexample:
  "SearchNeighbours exact_knn [4, 6] 1 [\<lparr>i_m = 9, j_m = 9\<rparr>, \<lparr>i_m = 8, j_m = 8\<rparr>] [50, 50] 2 one_point
     = Inr (True, [\<lparr>i_m = 9, j_m = 9\<rparr>, \<lparr>i_m = 0, j_m = 0\<rparr>], [50, 7],
        \<lparr>dimension_m = 2, HNSW_metric_m = Some (L2SpaceI 2),
         HNSW_matcher_m = Some \<lparr>space_m = L2SpaceI 2, max_elements_m = 1, M_m = 16,
           ef_construction_m = 100, ef_m = 16, points_m = [([1, 2], 0)]\<rparr>\<rparr>)
   \<and> \<not> ascending (zip (block 2 0 [\<lparr>i_m = 9, j_m = 9\<rparr>, \<lparr>i_m = 0, j_m = 0\<rparr>])
                       (block 2 0 [50, 7 :: int]))"
  by (simp add: one_point_search_stale ascending_def block_def)

text \<open>
  C4, amended. For every query of a batched search, the entries the search returned for
  it are the last entries of the query's block, and, read in the order of the output
  vectors, they are in ascending order of distance, entries of equal distance in
  ascending order of database id. When the search returns \<open>NN\<close> neighbours they are the
  whole block; otherwise the entries of the block before them are not written and
  need not be in order.
\<close>

theorem SearchNeighbours_ascending:
  fixes searchKnn :: "('s, 'd::{linorder,zero}) searchKnn"
  assumes "HNSW_matcher_m s = Some h"
    and "0 \<le> nbQuery"
    and "nat nbQuery * NN < 2 ^ 64"
    and "\<forall>i<nat nbQuery. length (query_result searchKnn s query nbQuery NN i) \<le> NN"
    and "\<forall>i<nat nbQuery. \<forall>r\<in>set (query_result searchKnn s query nbQuery NN i). snd r < 2 ^ 32"
  shows "\<exists>inds dists s'.
           SearchNeighbours searchKnn query nbQuery pvec_indices pvec_distances NN s =
             Inr (True, inds, dists, s')
         \<and> (\<forall>i<nat nbQuery.
               ascending (drop (NN - length (query_result searchKnn s query nbQuery NN i))
                            (zip (block NN i inds) (block NN i dists)))
             \<and> drop (NN - length (query_result searchKnn s query nbQuery NN i))
                   (zip (block NN i inds) (block NN i dists))
                 = map (\<lambda>r. (entry i r, fst r)) (sort (query_result searchKnn s query nbQuery NN i))
             \<and> (length (query_result searchKnn s query nbQuery NN i) = NN \<longrightarrow>
                   ascending (zip (block NN i inds) (block NN i dists))))"
proof -
  let ?q = "query_result searchKnn s query nbQuery NN"
  let ?ri = "resize (nat nbQuery * NN) \<lparr>i_m = 0, j_m = 0\<rparr> pvec_indices"
  let ?rd = "resize (nat nbQuery * NN) (0::'d) pvec_distances"
  obtain inds dists where r:
    "SearchNeighbours searchKnn query nbQuery pvec_indices pvec_distances NN s =
       Inr (True, inds, dists, s\<lparr>HNSW_matcher_m := Some (setEf (efSearch NN nbQuery) h)\<rparr>)"
    "\<forall>i<nat nbQuery.
       block NN i inds = take (NN - length (?q i)) (block NN i ?ri) @ map (entry i) (sort (?q i))
     \<and> block NN i dists = take (NN - length (?q i)) (block NN i ?rd) @ map fst (sort (?q i))"
    using SearchNeighbours_blocks [OF assms(1-4), of pvec_indices pvec_distances] by blast
  have "ascending (drop (NN - length (?q i)) (zip (block NN i inds) (block NN i dists)))
      \<and> drop (NN - length (?q i)) (zip (block NN i inds) (block NN i dists))
          = map (\<lambda>r. (entry i r, fst r)) (sort (?q i))
      \<and> (length (?q i) = NN \<longrightarrow> ascending (zip (block NN i inds) (block NN i dists)))"
    if i: "i < nat nbQuery" for i
  proof -
    have b: "i * NN + NN \<le> nat nbQuery * NN"
      using i by (rule block_bound)
    have l1: "length (take (NN - length (?q i)) (block NN i ?ri)) = NN - length (?q i)"
      using b by (simp add: length_block length_resize)
    have l2: "length (take (NN - length (?q i)) (block NN i ?rd)) = NN - length (?q i)"
      using b by (simp add: length_block length_resize)
    have eq: "drop (NN - length (?q i)) (zip (block NN i inds) (block NN i dists))
            = map (\<lambda>r. (entry i r, fst r)) (sort (?q i))"
      using r(2) i drop_zip_blocks [OF l1 l2] by simp
    moreover have "\<forall>r\<in>set (?q i). snd r < 2 ^ 32"
      using assms(5) i by simp
    ultimately have asc: "ascending (drop (NN - length (?q i)) (zip (block NN i inds) (block NN i dists)))"
      by (simp add: ascending_entries)
    have "ascending (zip (block NN i inds) (block NN i dists))" if "length (?q i) = NN"
      using asc that by simp
    then show ?thesis
      using asc eq by blast
  qed
  then show ?thesis
    using r(1) by blast
qed

theorem SearchNeighbours_ascending_witness:
  "length (query_result exact_knn three_points [1, 9] 2 2 0) = 2
   \<and> length (query_result exact_knn three_points [1, 9] 2 2 1) = 2
   \<and> (\<exists>inds dists s'.
         SearchNeighbours exact_knn [1, 9] 2 [] [] 2 three_points = Inr (True, inds, dists, s')
       \<and> ascending (zip (block 2 0 inds) (block 2 0 dists))
       \<and> ascending (zip (block 2 1 inds) (block 2 1 dists))
       \<and> zip (block 2 1 inds) (block 2 1 dists)
           = [(\<lparr>i_m = 1, j_m = 2\<rparr>, 1), (\<lparr>i_m = 1, j_m = 1\<rparr>, 6)])
   \<and> length (query_result exact_knn one_point [4, 6] 1 2 0) = 1
   \<and> (\<exists>inds dists s'.
         SearchNeighbours exact_knn [4, 6] 1 [\<lparr>i_m = 9, j_m = 9\<rparr>, \<lparr>i_m = 8, j_m = 8\<rparr>] [50, 50] 2
           one_point = Inr (True, inds, dists, s')
       \<and> ascending (drop 1 (zip (block 2 0 inds) (block 2 0 dists)))
       \<and> drop 1 (zip (block 2 0 inds) (block 2 0 dists)) = [(\<lparr>i_m = 0, j_m = 0\<rparr>, 7)])"
proof -
  have h2: "(0::int) \<le> 2"
    by simp
  have h3: "nat 2 * 2 < (2::nat) ^ 64"
    by simp
  have h4: "\<forall>i<nat 2. length (query_result exact_knn three_points [1, 9] 2 2 i) \<le> 2"
    by (simp add: query_result_def three_points_matcher length_exact_knn)
  have h5: "\<forall>i<nat 2. \<forall>r\<in>set (query_result exact_knn three_points [1, 9] 2 2 i). snd r < 2 ^ 32"
    by (simp add: less_2_cases_iff three_points_results)
  let ?p = "query_result exact_knn three_points [1, 9] 2 2"
  from SearchNeighbours_ascending [OF three_points_matcher h2 h3 h4 h5, of "[]" "[]"]
  obtain inds dists s' where
    r: "SearchNeighbours exact_knn [1, 9] 2 [] [] 2 three_points = Inr (True, inds, dists, s')"
    and a: "\<forall>i<nat 2.
              ascending (drop (2 - length (?p i)) (zip (block 2 i inds) (block 2 i dists)))
            \<and> drop (2 - length (?p i)) (zip (block 2 i inds) (block 2 i dists))
                = map (\<lambda>r. (entry i r, fst r)) (sort (?p i))
            \<and> (length (?p i) = 2 \<longrightarrow> ascending (zip (block 2 i inds) (block 2 i dists)))"
    by blast
  have z0: "(0::nat) < nat 2" and z1': "(1::nat) < nat 2"
    by simp_all
  from a z0 have "length (?p 0) = 2 \<longrightarrow> ascending (zip (block 2 0 inds) (block 2 0 dists))"
    by blast
  then have a0: "ascending (zip (block 2 0 inds) (block 2 0 dists))"
    by (simp add: three_points_results)
  from a z1' have "length (?p 1) = 2 \<longrightarrow> ascending (zip (block 2 1 inds) (block 2 1 dists))"
    by blast
  then have a1: "ascending (zip (block 2 1 inds) (block 2 1 dists))"
    by (simp add: three_points_results)
  from a z1' have "drop (2 - length (?p 1)) (zip (block 2 1 inds) (block 2 1 dists))
                = map (\<lambda>r. (entry 1 r, fst r)) (sort (?p 1))"
    by blast
  then have z1: "zip (block 2 1 inds) (block 2 1 dists)
                  = [(\<lparr>i_m = 1, j_m = 2\<rparr>, 1), (\<lparr>i_m = 1, j_m = 1\<rparr>, 6)]"
    by (simp add: three_points_results entry_def to_IndexT_def)
  have first: "\<exists>inds dists s'.
         SearchNeighbours exact_knn [1, 9] 2 [] [] 2 three_points = Inr (True, inds, dists, s')
       \<and> ascending (zip (block 2 0 inds) (block 2 0 dists))
       \<and> ascending (zip (block 2 1 inds) (block 2 1 dists))
       \<and> zip (block 2 1 inds) (block 2 1 dists)
           = [(\<lparr>i_m = 1, j_m = 2\<rparr>, 1), (\<lparr>i_m = 1, j_m = 1\<rparr>, 6)]"
    using r a0 a1 z1 by blast
  have g2: "(0::int) \<le> 1"
    by simp
  have g3: "nat 1 * 2 < (2::nat) ^ 64"
    by simp
  have g4: "\<forall>i<nat 1. length (query_result exact_knn one_point [4, 6] 1 2 i) \<le> 2"
    by (simp add: query_result_def one_point_matcher length_exact_knn)
  have g5: "\<forall>i<nat 1. \<forall>r\<in>set (query_result exact_knn one_point [4, 6] 1 2 i). snd r < 2 ^ 32"
    by (simp add: one_point_results)
  let ?q = "query_result exact_knn one_point [4, 6] 1 2"
  from SearchNeighbours_ascending [OF one_point_matcher g2 g3 g4 g5,
      of "[\<lparr>i_m = 9, j_m = 9\<rparr>, \<lparr>i_m = 8, j_m = 8\<rparr>]" "[50, 50]"]
  obtain inds dists s' where
    r': "SearchNeighbours exact_knn [4, 6] 1 [\<lparr>i_m = 9, j_m = 9\<rparr>, \<lparr>i_m = 8, j_m = 8\<rparr>] [50, 50] 2
          one_point = Inr (True, inds, dists, s')"
    and a': "\<forall>i<nat 1.
              ascending (drop (2 - length (?q i)) (zip (block 2 i inds) (block 2 i dists)))
            \<and> drop (2 - length (?q i)) (zip (block 2 i inds) (block 2 i dists))
                = map (\<lambda>r. (entry i r, fst r)) (sort (?q i))
            \<and> (length (?q i) = 2 \<longrightarrow> ascending (zip (block 2 i inds) (block 2 i dists)))"
    by blast
  have z: "(0::nat) < nat 1"
    by simp
  from a' z have "ascending (drop (2 - length (?q 0)) (zip (block 2 0 inds) (block 2 0 dists)))"
    by blast
  then have c: "ascending (drop 1 (zip (block 2 0 inds) (block 2 0 dists)))"
    unfolding one_point_results by simp
  from a' z have "drop (2 - length (?q 0)) (zip (block 2 0 inds) (block 2 0 dists))
                = map (\<lambda>r. (entry 0 r, fst r)) (sort (?q 0))"
    by blast
  then have c': "drop 1 (zip (block 2 0 inds) (block 2 0 dists)) = [(\<lparr>i_m = 0, j_m = 0\<rparr>, 7)]"
    unfolding one_point_results by (simp add: entry_def to_IndexT_def)
  have second: "\<exists>inds dists s'.
         SearchNeighbours exact_knn [4, 6] 1 [\<lparr>i_m = 9, j_m = 9\<rparr>, \<lparr>i_m = 8, j_m = 8\<rparr>] [50, 50] 2
           one_point = Inr (True, inds, dists, s')
       \<and> ascending (drop 1 (zip (block 2 0 inds) (block 2 0 dists)))
       \<and> drop 1 (zip (block 2 0 inds) (block 2 0 dists)) = [(\<lparr>i_m = 0, j_m = 0\<rparr>, 7)]"
    using r' c c' by blast
  show ?thesis
    using first second by (simp add: three_points_results one_point_results)
qed



subsection \<open>The search breadth\<close>

lemma SearchNeighbours_state:
  assumes "HNSW_matcher_m s = Some h"
    and "SearchNeighbours searchKnn query nbQuery pvec_indices pvec_distances NN s
           = Inr (ok, inds, dists, s')"
  shows "ok \<and> s' = s\<lparr>HNSW_matcher_m := Some (setEf (efSearch NN nbQuery) h)\<rparr>"
  using assms by (auto simp: SearchNeighbours_def Let_def split: sum.splits)

lemma SearchNeighbours_unready:
  "HNSW_matcher_m s = None \<Longrightarrow>
     SearchNeighbours searchKnn query nbQuery pvec_indices pvec_distances NN s
       = Inr (False, pvec_indices, pvec_distances, s)"
  by (simp add: SearchNeighbours_def)





subsection \<open>SearchNeighbour between batched searches\<close>

lemma setEf_setEf: "setEf a (setEf b h) = setEf a h"
  by (simp add: setEf_def)

lemma SearchNeighbour_breadth_irrelevant:
  "SearchNeighbour searchKnn query indice distance (s\<lparr>HNSW_matcher_m := Some (setEf e h)\<rparr>)
     = SearchNeighbour searchKnn query indice distance (s\<lparr>HNSW_matcher_m := Some h\<rparr>)"
  by (simp add: SearchNeighbour_def Let_def setEf_setEf)

lemma batches_state:
  assumes "batches searchKnn cs s = Inr s'"
  shows "s' = s \<or> (\<exists>h e. HNSW_matcher_m s = Some h \<and> s' = s\<lparr>HNSW_matcher_m := Some (setEf e h)\<rparr>)"
  using assms
proof (induction cs arbitrary: s)
  case Nil
  then show ?case by simp
next
  case (Cons c cs)
  obtain query nbQuery pvec_indices pvec_distances NN
    where c: "c = (query, nbQuery, pvec_indices, pvec_distances, NN)"
    by (cases c) auto
  from Cons.prems c obtain ok inds dists s1 where
    run: "SearchNeighbours searchKnn query nbQuery pvec_indices pvec_distances NN s
            = Inr (ok, inds, dists, s1)"
    and rest: "batches searchKnn cs s1 = Inr s'"
    by (auto split: sum.splits)
  show ?case
  proof (cases "HNSW_matcher_m s")
    case None
    then have "s1 = s"
      using run by (simp add: SearchNeighbours_unready)
    then show ?thesis
      using Cons.IH [OF rest] by simp
  next
    case (Some h)
    then have s1: "s1 = s\<lparr>HNSW_matcher_m := Some (setEf (efSearch NN nbQuery) h)\<rparr>"
      using SearchNeighbours_state [OF Some run] by simp
    from Cons.IH [OF rest] show ?thesis
    proof
      assume "s' = s1"
      then show ?thesis using s1 Some by blast
    next
      assume "\<exists>h e. HNSW_matcher_m s1 = Some h \<and> s' = s1\<lparr>HNSW_matcher_m := Some (setEf e h)\<rparr>"
      then obtain e where "s' = s\<lparr>HNSW_matcher_m := Some (setEf e h)\<rparr>"
        using s1 by (auto simp: setEf_setEf)
      then show ?thesis using Some by blast
    qed
  qed
qed

text \<open>
  C10. \<open>SearchNeighbour\<close> searches with the breadth 16 whatever the breadth of the index
  was: after any sequence of batched searches it returns, for the same query, what it
  returns before them, and a successful call leaves the breadth at 16.
\<close>

theorem SearchNeighbour_after_batches:
  assumes "batches searchKnn cs s = Inr s'"
  shows "SearchNeighbour searchKnn query indice distance s'
           = SearchNeighbour searchKnn query indice distance s
       \<and> (\<forall>i d s''. SearchNeighbour searchKnn query indice distance s = Inr (True, i, d, s'') \<longrightarrow>
             map_option ef_m (HNSW_matcher_m s'') = Some 16)"
proof -
  have same: "SearchNeighbour searchKnn query indice distance s'
                = SearchNeighbour searchKnn query indice distance s"
    using batches_state [OF assms]
  proof
    assume "s' = s"
    then show ?thesis by simp
  next
    assume "\<exists>h e. HNSW_matcher_m s = Some h \<and> s' = s\<lparr>HNSW_matcher_m := Some (setEf e h)\<rparr>"
    then obtain h e where h: "HNSW_matcher_m s = Some h"
      and s': "s' = s\<lparr>HNSW_matcher_m := Some (setEf e h)\<rparr>"
      by blast
    from h have "s\<lparr>HNSW_matcher_m := Some h\<rparr> = s"
      by simp
    then show ?thesis
      unfolding s' using SearchNeighbour_breadth_irrelevant [where s = s and e = e and h = h]
      by simp
  qed
  have "map_option ef_m (HNSW_matcher_m s'') = Some 16"
    if "SearchNeighbour searchKnn query indice distance s = Inr (True, i, d, s'')" for i d s''
    using that by (auto simp: SearchNeighbour_def Let_def setEf_def split: option.splits if_splits)
  then show ?thesis
    using same by blast
qed

theorem SearchNeighbour_after_batches_witness:
  "batches exact_knn [([1], 1, [], [], 3)] three_points
     = Inr \<lparr>dimension_m = 1, HNSW_metric_m = Some (L2SpaceI 1),
         HNSW_matcher_m = Some \<lparr>space_m = L2SpaceI 1, max_elements_m = 3, M_m = 16,
           ef_construction_m = 100, ef_m = 6,
           points_m = [([0], 0), ([3], 1), ([10], 2)]\<rparr>\<rparr>
   \<and> SearchNeighbour exact_knn [1, 9] 7 7
        \<lparr>dimension_m = 1, HNSW_metric_m = Some (L2SpaceI 1),
         HNSW_matcher_m = Some \<lparr>space_m = L2SpaceI 1, max_elements_m = 3, M_m = 16,
           ef_construction_m = 100, ef_m = 6,
           points_m = [([0], 0), ([3], 1), ([10], 2)]\<rparr>\<rparr>
     = SearchNeighbour exact_knn [1, 9] 7 7 three_points
   \<and> SearchNeighbour exact_knn [1, 9] 7 7 three_points
     = Inr (True, 0, 1,
        \<lparr>dimension_m = 1, HNSW_metric_m = Some (L2SpaceI 1),
         HNSW_matcher_m = Some \<lparr>space_m = L2SpaceI 1, max_elements_m = 3, M_m = 16,
           ef_construction_m = 100, ef_m = 16,
           points_m = [([0], 0), ([3], 1), ([10], 2)]\<rparr>\<rparr>)"
proof -
  have b: "batches exact_knn [([1], 1, [], [], 3)] three_points
     = Inr \<lparr>dimension_m = 1, HNSW_metric_m = Some (L2SpaceI 1),
         HNSW_matcher_m = Some \<lparr>space_m = L2SpaceI 1, max_elements_m = 3, M_m = 16,
           ef_construction_m = 100, ef_m = 6,
           points_m = [([0], 0), ([3], 1), ([10], 2)]\<rparr>\<rparr>"
    by (simp add: three_points_search)
  show ?thesis
    using b SearchNeighbour_after_batches [OF b, of "[1, 9]" 7 7] three_points_nearest
    by blast
qed

subsection \<open>One object with an unsupported combination\<close>

lemma SearchNeighbour_unready:
  "HNSW_matcher_m s = None \<Longrightarrow>
     SearchNeighbour searchKnn query indice distance s = Inr (False, indice, distance, s)"
  by (simp add: SearchNeighbour_def)

lemma Build_unsupported_unready:
  assumes "select_space mt dt d = None"
    and "HNSW_metric_m s = None" and "HNSW_matcher_m s = None"
  shows "HNSW_metric_m (snd (snd (Build mt dt dataset nbRows dimension s))) = None
       \<and> HNSW_matcher_m (snd (snd (Build mt dt dataset nbRows dimension s))) = None"
proof (cases "nbRows < 1")
  case True
  then show ?thesis by (simp add: Build_empty)
next
  case False
  moreover have "select_space mt dt dimension = None"
    using assms(1) select_space_dimension [of mt dt d dimension] by simp
  ultimately show ?thesis using assms(2,3) by (simp add: Build_unsupported)
qed

lemma run_calls_unsupported:
  assumes "select_space mt dt d = None"
    and "HNSW_metric_m s0 = None" and "HNSW_matcher_m s0 = None"
    and "run_calls searchKnn mt dt cs s0 = Inr s"
  shows "HNSW_metric_m s = None \<and> HNSW_matcher_m s = None"
  using assms(2-4)
proof (induction cs arbitrary: s0)
  case Nil
  then show ?case by simp
next
  case (Cons c cs)
  show ?case
  proof (cases c)
    case (CallBuild dataset nbRows dimension)
    let ?s1 = "snd (snd (Build mt dt dataset nbRows dimension s0))"
    have "HNSW_metric_m ?s1 = None" and "HNSW_matcher_m ?s1 = None"
      using Build_unsupported_unready [OF assms(1) Cons.prems(1,2)] by simp_all
    moreover have "run_calls searchKnn mt dt cs ?s1 = Inr s"
      using Cons.prems(3) CallBuild by simp
    ultimately show ?thesis by (rule Cons.IH)
  next
    case (CallSearchNeighbour query indice distance)
    then have "run_calls searchKnn mt dt cs s0 = Inr s"
      using Cons.prems(2,3) by (simp add: SearchNeighbour_unready)
    with Cons.prems(1,2) show ?thesis by (rule Cons.IH)
  next
    case (CallSearchNeighbours query nbQuery pvec_indices pvec_distances NN)
    then have "run_calls searchKnn mt dt cs s0 = Inr s"
      using Cons.prems(2,3) by (simp add: SearchNeighbours_unready)
    with Cons.prems(1,2) show ?thesis by (rule Cons.IH)
  qed
qed

text \<open>
  C9, as stated, fails: on an object whose combination is unsupported, a call of \<open>Build\<close>
  that takes the failing branch stores the new dimension, but the object owns no index
  that the dimension could disagree with.
\<close>

theorem Build_unsupported_owns_no_index_counterexample:
  "select_space L2_HNSW T_other 2 = None
   \<and> Build L2_HNSW T_other [1, 2 :: int] 1 2 (new_HNSWMatcher 0)
     = (False, [], \<lparr>dimension_m = 2, HNSW_metric_m = None, HNSW_matcher_m = None\<rparr>)
   \<and> Build L2_HNSW T_other [4, 5, 6 :: int] 1 3
       \<lparr>dimension_m = 2, HNSW_metric_m = None, HNSW_matcher_m = None\<rparr>
     = (False, [], \<lparr>dimension_m = 3, HNSW_metric_m = None, HNSW_matcher_m = None\<rparr>)"
  by (simp add: Build_def select_space_def new_HNSWMatcher_def)

text \<open>
  C9, amended. On an object whose combination of metric and distance type is
  unsupported, after any calls of \<open>Build\<close>, \<open>SearchNeighbour\<close> and \<open>SearchNeighbours\<close>, a
  call of \<open>Build\<close> with at least one row returns \<open>false\<close> without inserting a point, leaves
  \<open>HNSW_metric_\<close> and \<open>HNSW_matcher_\<close> as they were, and stores the dimension argument in
  \<open>dimension_\<close>; both pointers are null before and after, so no index is owned.
\<close>

theorem Build_unsupported_on_one_object:
  fixes searchKnn :: "('s, 'd::{linorder,zero}) searchKnn"
  assumes "select_space mt dt d = None"
    and "run_calls searchKnn mt dt cs (new_HNSWMatcher d0) = Inr s"
    and "1 \<le> nbRows"
  shows "Build mt dt dataset nbRows dimension s = (False, [], s\<lparr>dimension_m := dimension\<rparr>)
       \<and> HNSW_metric_m s = None \<and> HNSW_matcher_m s = None"
proof -
  have "HNSW_metric_m (new_HNSWMatcher d0 :: 's HNSWMatcher) = None"
    and "HNSW_matcher_m (new_HNSWMatcher d0 :: 's HNSWMatcher) = None"
    by (simp_all add: new_HNSWMatcher_def)
  then have "HNSW_metric_m s = None \<and> HNSW_matcher_m s = None"
    using assms(2) by (rule run_calls_unsupported [OF assms(1)])
  moreover have "select_space mt dt dimension = None"
    using assms(1) select_space_dimension [of mt dt d dimension] by simp
  ultimately show ?thesis
    using assms(3) by (simp add: Build_unsupported)
qed

theorem Build_unsupported_on_one_object_witness:
  "select_space L2_HNSW T_other 0 = None
   \<and> run_calls exact_knn L2_HNSW T_other
       [CallBuild [1, 2] 1 2, CallSearchNeighbour [1, 2] 5 9, CallBuild [] 0 4,
        CallSearchNeighbours [1, 2] 1 [] [] 2]
       (new_HNSWMatcher 7)
     = Inr \<lparr>dimension_m = 2, HNSW_metric_m = None, HNSW_matcher_m = None\<rparr>
   \<and> Build L2_HNSW T_other [4, 5, 6 :: int] 1 3
       \<lparr>dimension_m = 2, HNSW_metric_m = None, HNSW_matcher_m = None\<rparr>
     = (False, [], \<lparr>dimension_m = 3, HNSW_metric_m = None, HNSW_matcher_m = None\<rparr>)"
proof -
  have u: "select_space L2_HNSW T_other 0 = None"
    by (simp add: select_space_def)
  have r: "run_calls exact_knn L2_HNSW T_other
       [CallBuild [1, 2] 1 2, CallSearchNeighbour [1, 2] 5 9, CallBuild [] 0 4,
        CallSearchNeighbours [1, 2] 1 [] [] 2]
       (new_HNSWMatcher 7)
     = Inr \<lparr>dimension_m = 2, HNSW_metric_m = None, HNSW_matcher_m = None\<rparr>"
    by (simp add: Build_def select_space_def new_HNSWMatcher_def SearchNeighbour_def
        SearchNeighbours_def)
  have n: "(1::int) \<le> 1"
    by simp
  show ?thesis
    using u r Build_unsupported_on_one_object [OF u r n, of "[4, 5, 6]" 3]
    by simp
qed

end
